theory Spec2Isabelle
  imports Main
begin

section \<open>JavaScript strings\<close>

text \<open>
  A JavaScript string is a sequence of UTF-16 code units; \<open>length\<close>, \<open>substring\<close>,
  \<open>startsWith\<close> and regular expressions without the \<open>u\<close> flag all work on code units.
  A character outside the Basic Multilingual Plane is two code units (a surrogate pair).
  A code unit is a number below \<open>2^16\<close>; the parser only compares code units, it never
  computes with them, so they are natural numbers here and every JavaScript string is a
  \<open>jsstring\<close>.
\<close>

type_synonym code_unit = nat
type_synonym jsstring = "code_unit list"

text \<open>An ASCII literal of the source, as code units.\<close>

definition js :: "string \<Rightarrow> jsstring" where
  "js s = map of_char s"

text \<open>
  \<open>WhiteSpace\<close> and \<open>LineTerminator\<close> of ECMAScript: what \<open>String.prototype.trim\<close> strips
  and what \<open>\s\<close> matches.
\<close>

definition isLineTerminator :: "code_unit \<Rightarrow> bool" where
  "isLineTerminator c = (c = 0x000A \<or> c = 0x000D \<or> c = 0x2028 \<or> c = 0x2029)"

definition isWhiteSpace :: "code_unit \<Rightarrow> bool" where
  "isWhiteSpace c =
     (c = 0x0009 \<or> c = 0x000B \<or> c = 0x000C \<or> c = 0x0020 \<or> c = 0x00A0 \<or> c = 0xFEFF
      \<or> c = 0x1680 \<or> (0x2000 \<le> c \<and> c \<le> 0x200A) \<or> c = 0x202F \<or> c = 0x205F \<or> c = 0x3000
      \<or> isLineTerminator c)"

text \<open>\<open>\d\<close> is \<open>[0-9]\<close>.\<close>

definition isDigit :: "code_unit \<Rightarrow> bool" where
  "isDigit c = (0x30 \<le> c \<and> c \<le> 0x39)"

text \<open>The character class \<open>[A-D]\<close>.\<close>

definition isAtoD :: "code_unit \<Rightarrow> bool" where
  "isAtoD c = (0x41 \<le> c \<and> c \<le> 0x44)"

definition trim :: "jsstring \<Rightarrow> jsstring" where
  "trim s = rev (dropWhile isWhiteSpace (rev (dropWhile isWhiteSpace s)))"

definition startsWith :: "jsstring \<Rightarrow> jsstring \<Rightarrow> bool" where
  "startsWith s p = (take (length p) s = p)"

fun includes_str :: "jsstring \<Rightarrow> jsstring \<Rightarrow> bool" where
  "includes_str [] p = startsWith [] p"
| "includes_str (c # cs) p = (startsWith (c # cs) p \<or> includes_str cs p)"

text \<open>
  \<open>s.split(sep)\<close> for a separator that matches exactly one code unit (the string \<open>'\n'\<close>,
  \<open>':'\<close>, or the class \<open>/[\/\\]/\<close>): the result always has at least one element.
\<close>

fun split :: "(code_unit \<Rightarrow> bool) \<Rightarrow> jsstring \<Rightarrow> jsstring list" where
  "split sep [] = [ [] ]"
| "split sep (c # cs) =
     (if sep c then [] # split sep cs
      else (case split sep cs of [] \<Rightarrow> [ [c] ] | x # xs \<Rightarrow> (c # x) # xs))"

text \<open>\<open>content.split('\n')\<close>\<close>

definition lines_of :: "jsstring \<Rightarrow> jsstring list" where
  "lines_of content = split (\<lambda>c. c = 0x0A) content"

text \<open>\<open>parts.join(sep)\<close>.\<close>

fun join :: "jsstring \<Rightarrow> jsstring list \<Rightarrow> jsstring" where
  "join sep [] = []"
| "join sep [x] = x"
| "join sep (x # y # ys) = x @ sep @ join sep (y # ys)"

text \<open>
  \<open>s.replace(p, r)\<close> with a string pattern: only the first occurrence of \<open>p\<close> is replaced
  (\<open>r\<close> holds no \<open>$\<close> here).
\<close>

fun replace :: "jsstring \<Rightarrow> jsstring \<Rightarrow> jsstring \<Rightarrow> jsstring" where
  "replace [] p r = (if startsWith [] p then r else [])"
| "replace (c # cs) p r =
     (if startsWith (c # cs) p then r @ drop (length p) (c # cs) else c # replace cs p r)"

text \<open>\<open>s.replace(/\*\*/g, '')\<close>: every occurrence of two stars, left to right, not overlapping.\<close>

fun replace_bold :: "jsstring \<Rightarrow> jsstring" where
  "replace_bold (a # b # cs) =
     (if a = 0x2A \<and> b = 0x2A then replace_bold cs else a # replace_bold (b # cs))"
| "replace_bold cs = cs"

text \<open>
  \<open>s.replace(/[..]/g, '')\<close> for the class of the two decorative symbols of the title.
  The expression has no \<open>u\<close> flag, so the class holds code units: U+1F3AF is the pair
  D83C DFAF and U+2728 is one unit.
\<close>

definition isDecoration :: "code_unit \<Rightarrow> bool" where
  "isDecoration c = (c = 0xD83C \<or> c = 0xDFAF \<or> c = 0x2728)"

definition replace_decoration :: "jsstring \<Rightarrow> jsstring" where
  "replace_decoration s = filter (\<lambda>c. \<not> isDecoration c) s"

text \<open>A number printed in a template literal, and \<open>parseInt\<close> on a string of digits.\<close>

fun digits :: "nat \<Rightarrow> jsstring" where
  "digits n = (if n < 10 then [48 + n] else digits (n div 10) @ [48 + n mod 10])"

declare digits.simps [simp del]

fun parseInt_acc :: "nat \<Rightarrow> jsstring \<Rightarrow> nat" where
  "parseInt_acc a [] = a"
| "parseInt_acc a (c # cs) = parseInt_acc (10 * a + (c - 48)) cs"

definition parseInt :: "jsstring \<Rightarrow> nat" where
  "parseInt s = parseInt_acc 0 s"

section \<open>The chapter identifier\<close>

text \<open>
  The path is split at \<open>/\<close> and \<open>\\\<close>; the list of parts is never empty, so
  \<open>parts[parts.length - 1]\<close> is its last element. A part that starts with \<open>chapter-\<close> is
  not empty, hence truthy.
\<close>

definition extractChapterId :: "jsstring \<Rightarrow> jsstring" where
  "extractChapterId filePath =
     (let parts = split (\<lambda>c. c = 0x2F \<or> c = 0x5C) filePath;
          chapterPart = find (\<lambda>p. startsWith p (js ''chapter-'')) parts;
          fileName = replace (last parts) (js ''.md'') []
      in case chapterPart of
           Some p \<Rightarrow> if p \<noteq> [] then p @ js ''-quiz'' else fileName
         | None \<Rightarrow> fileName)"

section \<open>The regular expressions of the parser\<close>

text \<open>
  Each expression of \<open>parseQuizFile\<close> is written out as the function it computes on a
  string. None has the \<open>m\<close> or \<open>s\<close> flag: \<open>^\<close> is the start of the string and \<open>.\<close> is any
  code unit that is no line terminator.
\<close>

text \<open>
  The tail \<open>\s+(.+)\<close> at the end of an expression, applied to the rest \<open>r\<close> of the string:
  \<open>\s+\<close> is greedy and gives code units back one at a time, down to one, until \<open>.+\<close> finds
  a code unit to start on; the group is then the longest run without a line terminator.
\<close>

fun backtrack_ws :: "nat \<Rightarrow> jsstring \<Rightarrow> jsstring option" where
  "backtrack_ws 0 r = None"
| "backtrack_ws (Suc j) r =
     (case drop (Suc j) r of
        [] \<Rightarrow> backtrack_ws j r
      | c # cs \<Rightarrow> if isLineTerminator c then backtrack_ws j r
                  else Some (takeWhile (\<lambda>x. \<not> isLineTerminator x) (c # cs)))"

definition ws_then_text :: "jsstring \<Rightarrow> jsstring option" where
  "ws_then_text r = backtrack_ws (length (takeWhile isWhiteSpace r)) r"

text \<open>An expression without \<open>^\<close> is tried at every position, from the left.\<close>

fun search :: "(jsstring \<Rightarrow> 'a option) \<Rightarrow> jsstring \<Rightarrow> 'a option" where
  "search m [] = m []"
| "search m (c # cs) = (case m (c # cs) of Some x \<Rightarrow> Some x | None \<Rightarrow> search m cs)"

text \<open>\<open>/^### Question (\d+):/\<close>\<close>

definition match_question :: "jsstring \<Rightarrow> bool" where
  "match_question line =
     (startsWith line (js ''### Question '') \<and>
      (let r = drop 13 line; ds = takeWhile isDigit r
       in ds \<noteq> [] \<and> startsWith (drop (length ds) r) (js '':'')))"

text \<open>\<open>/^\*\*([A-D])\)\*\*\s+(.+)/\<close> and \<open>/^([A-D])\)\s+(.+)/\<close>: the groups 1 and 2.\<close>

definition match_option_bold :: "jsstring \<Rightarrow> (jsstring \<times> jsstring) option" where
  "match_option_bold line =
     (case line of
        a # b # k # p # c # d # r \<Rightarrow>
          if a = 0x2A \<and> b = 0x2A \<and> isAtoD k \<and> p = 0x29 \<and> c = 0x2A \<and> d = 0x2A
          then map_option (\<lambda>t. ([k], t)) (ws_then_text r) else None
      | _ \<Rightarrow> None)"

definition match_option_plain :: "jsstring \<Rightarrow> (jsstring \<times> jsstring) option" where
  "match_option_plain line =
     (case line of
        k # p # r \<Rightarrow>
          if isAtoD k \<and> p = 0x29 then map_option (\<lambda>t. ([k], t)) (ws_then_text r) else None
      | _ \<Rightarrow> None)"

definition match_option :: "jsstring \<Rightarrow> (jsstring \<times> jsstring) option" where
  "match_option line =
     (case match_option_bold line of Some m \<Rightarrow> Some m | None \<Rightarrow> match_option_plain line)"

text \<open>\<open>/\*\*Answer:\s+([A-D])\)/\<close>: group 1.\<close>

definition match_answer_at :: "jsstring \<Rightarrow> jsstring option" where
  "match_answer_at s =
     (if startsWith s (js ''**Answer:'') then
        (let r = drop 9 s; r' = dropWhile isWhiteSpace r
         in if length r' < length r then
              (case r' of k # p # _ \<Rightarrow> if isAtoD k \<and> p = 0x29 then Some [k] else None
               | _ \<Rightarrow> None)
            else None)
      else None)"

definition match_answer :: "jsstring \<Rightarrow> jsstring option" where
  "match_answer line = search match_answer_at line"

text \<open>\<open>/\*\*Explanation:\*\*\s+(.+)/\<close>: group 1.\<close>

definition match_explanation_at :: "jsstring \<Rightarrow> jsstring option" where
  "match_explanation_at s =
     (if startsWith s (js ''**Explanation:**'') then ws_then_text (drop 16 s) else None)"

definition match_explanation :: "jsstring \<Rightarrow> jsstring option" where
  "match_explanation line = search match_explanation_at line"

text \<open>
  The common head \<open>^(\d+)\.\s+\*\*([A-D])\*\*\<close> of the two expressions of the old answer
  key: the digits, the letter and the rest of the line.
\<close>

definition match_key_head :: "jsstring \<Rightarrow> (jsstring \<times> jsstring \<times> jsstring) option" where
  "match_key_head line =
     (let ds = takeWhile isDigit line
      in if ds = [] then None
         else (case drop (length ds) line of
                 [] \<Rightarrow> None
               | dot # r \<Rightarrow>
                   if dot \<noteq> 0x2E then None
                   else (let r' = dropWhile isWhiteSpace r
                         in if length r' < length r then
                              (case r' of
                                 a # b # k # c # d # rest \<Rightarrow>
                                   if a = 0x2A \<and> b = 0x2A \<and> isAtoD k \<and> c = 0x2A \<and> d = 0x2A
                                   then Some (ds, [k], rest) else None
                               | _ \<Rightarrow> None)
                            else None)))"

text \<open>\<open>/^\d+\.\s+\*\*[A-D]\*\*/\<close>\<close>

definition match_key_test :: "jsstring \<Rightarrow> bool" where
  "match_key_test line = (match_key_head line \<noteq> None)"

text \<open>\<open>/^(\d+)\.\s+\*\*([A-D])\*\*\s+-\s+(.+)/\<close>: the groups 1, 2 and 3.\<close>

definition match_key :: "jsstring \<Rightarrow> (jsstring \<times> jsstring \<times> jsstring) option" where
  "match_key line =
     (case match_key_head line of
        None \<Rightarrow> None
      | Some (ds, k, rest) \<Rightarrow>
          (let r' = dropWhile isWhiteSpace rest
           in if length r' < length rest then
                (case r' of
                   [] \<Rightarrow> None
                 | dash # r \<Rightarrow>
                     if dash = 0x2D then map_option (\<lambda>t. (ds, k, t)) (ws_then_text r) else None)
              else None))"

section \<open>The quiz parser\<close>

record QuizOption =
  key :: jsstring
  option_text :: jsstring

record QuizQuestion =
  qid :: jsstring
  question :: jsstring
  options :: "QuizOption list"
  correct_answer :: jsstring
  explanation :: jsstring

record ParsedQuiz =
  chapter_id :: jsstring
  title :: jsstring
  description :: jsstring
  passing_percentage :: nat
  questions :: "QuizQuestion list"

text \<open>
  The title: the loop over the lines stops at the first line that starts with \<open>'# '\<close>
  (the title \<open>t\<close> is still empty there).
\<close>

fun title_loop :: "jsstring list \<Rightarrow> jsstring \<Rightarrow> jsstring" where
  "title_loop [] t = t"
| "title_loop (line # rest) t =
     (if startsWith line (js ''# '') \<and> t = []
      then trim (replace_decoration (replace line (js ''# '') []))
      else title_loop rest t)"

text \<open>The marker of the questions section: \<open>'## '\<close>, U+1F4DD as a surrogate pair, \<open>' Questions'\<close>.\<close>

definition questions_marker :: jsstring where
  "questions_marker = js ''## '' @ [0xD83D, 0xDCDD] @ js '' Questions''"

text \<open>The description: the loop with its flag \<open>inDescription\<close> and the text \<open>d\<close> built so far.\<close>

fun description_loop :: "jsstring list \<Rightarrow> bool \<Rightarrow> jsstring \<Rightarrow> jsstring" where
  "description_loop [] inDescription d = d"
| "description_loop (line # rest) inDescription d =
     (if startsWith line (js ''# '') \<and> \<not> inDescription then description_loop rest True d
      else if inDescription \<and> includes_str line questions_marker then d
      else if inDescription \<and> trim line \<noteq> [] \<and> \<not> startsWith line (js ''**'')
              \<and> \<not> startsWith line (js ''-'') \<and> \<not> startsWith line (js ''#'')
           then description_loop rest inDescription (d @ trim line @ js '' '')
      else description_loop rest inDescription d)"

definition extract_description :: "jsstring list \<Rightarrow> jsstring" where
  "extract_description lines = take 200 (trim (description_loop lines False []))"

text \<open>
  The variables of the question loop; the array \<open>questions\<close> of the questions finalized so
  far is \<open>found\<close>. The legacy answer key is a \<open>Map\<close> from numbers to
  an answer and an explanation. \<open>parseInt\<close> yields a double, exact up to \<open>2^53\<close>; a key
  beyond that is never looked up (the lookups are at positions in the question list), so the
  keys are natural numbers here.
\<close>

record scan =
  found :: "QuizQuestion list"
  answers :: "nat \<rightharpoonup> jsstring \<times> jsstring"
  currentQuestion :: "QuizQuestion option"
  questionNumber :: nat

text \<open>
  The condition \<open>currentQuestion && currentQuestion.question && currentQuestion.options\<close>:
  a string is truthy when it is not empty, an array is an object and always truthy.
\<close>

definition truthy_array :: "'a list \<Rightarrow> bool" where
  "truthy_array xs = True"

definition push_current :: "scan \<Rightarrow> QuizQuestion list" where
  "push_current st =
     (case currentQuestion st of
        None \<Rightarrow> found st
      | Some q \<Rightarrow> if question q \<noteq> [] \<and> truthy_array (options q) then found st @ [q] else found st)"

text \<open>The template literal \<open>`q${questionNumber}`\<close>.\<close>

definition make_id :: "nat \<Rightarrow> jsstring" where
  "make_id n = js ''q'' @ digits n"

text \<open>
  A question heading: \<open>next\<close> is \<open>lines[i + 1]\<close>, absent after the last line; the text of
  the question is that line without its double stars, or the title of the heading when that
  is empty or absent.
\<close>

definition on_question :: "jsstring \<Rightarrow> jsstring option \<Rightarrow> scan \<Rightarrow> scan" where
  "on_question line next st =
     (if match_question line then
        (let questionNumber' = questionNumber st + 1;
             questionTitle = trim (join (js '':'') (tl (split (\<lambda>c. c = 0x3A) line)));
             questionText =
               (case next of
                  None \<Rightarrow> questionTitle
                | Some l \<Rightarrow> (let t = trim (replace_bold l) in if t \<noteq> [] then t else questionTitle))
         in st\<lparr>found := push_current st,
                questionNumber := questionNumber',
                currentQuestion := Some \<lparr>qid = make_id questionNumber',
                                         question = questionText, options = [],
                                         correct_answer = [], explanation = []\<rparr>\<rparr>)
      else st)"

definition on_option :: "jsstring \<Rightarrow> scan \<Rightarrow> scan" where
  "on_option line st =
     (case (currentQuestion st, match_option line) of
        (Some q, Some (k, t)) \<Rightarrow>
          st\<lparr>currentQuestion := Some (q\<lparr>options := options q @ [\<lparr>key = k, option_text = trim t\<rparr>]\<rparr>)\<rparr>
      | _ \<Rightarrow> st)"

definition on_answer :: "jsstring \<Rightarrow> scan \<Rightarrow> scan" where
  "on_answer line st =
     (case (match_answer line, currentQuestion st) of
        (Some a, Some q) \<Rightarrow> st\<lparr>currentQuestion := Some (q\<lparr>correct_answer := a\<rparr>)\<rparr>
      | _ \<Rightarrow> st)"

definition on_explanation :: "jsstring \<Rightarrow> scan \<Rightarrow> scan" where
  "on_explanation line st =
     (case (match_explanation line, currentQuestion st) of
        (Some e, Some q) \<Rightarrow> st\<lparr>currentQuestion := Some (q\<lparr>explanation := trim e\<rparr>)\<rparr>
      | _ \<Rightarrow> st)"

definition on_answer_key :: "jsstring \<Rightarrow> scan \<Rightarrow> scan" where
  "on_answer_key line st =
     (if match_key_test line then
        (case match_key line of
           Some (num, answer, expl) \<Rightarrow>
             st\<lparr>answers := (answers st)(parseInt num \<mapsto> (answer, trim expl))\<rparr>
         | None \<Rightarrow> st)
      else st)"

text \<open>One turn of the loop, on \<open>lines[i]\<close> and \<open>lines[i + 1]\<close>.\<close>

definition scan_line :: "jsstring \<Rightarrow> jsstring option \<Rightarrow> scan \<Rightarrow> scan" where
  "scan_line raw next st =
     (let line = trim raw
      in on_answer_key line (on_explanation line (on_answer line (on_option line
           (on_question line next st)))))"

fun scan_lines :: "jsstring list \<Rightarrow> scan \<Rightarrow> scan" where
  "scan_lines [] st = st"
| "scan_lines (raw # rest) st =
     scan_lines rest (scan_line raw (case rest of [] \<Rightarrow> None | l # _ \<Rightarrow> Some l) st)"

definition scan_init :: scan where
  "scan_init = \<lparr>found = [], answers = Map.empty, currentQuestion = None, questionNumber = 0\<rparr>"

text \<open>
  \<open>questions.forEach((q, index) => ...)\<close>: the entry of the answer key at \<open>index + 1\<close>, when
  there is one, is written into the question.
\<close>

fun match_answers :: "(nat \<rightharpoonup> jsstring \<times> jsstring) \<Rightarrow> nat \<Rightarrow> QuizQuestion list \<Rightarrow> QuizQuestion list" where
  "match_answers m index [] = []"
| "match_answers m index (q # qs) =
     (case m (index + 1) of
        Some (answer, expl) \<Rightarrow> q\<lparr>correct_answer := answer, explanation := expl\<rparr>
      | None \<Rightarrow> q) # match_answers m (index + 1) qs"

text \<open>The questions of a document, after the loop, the last question and the answer key.\<close>

definition parse_questions :: "jsstring list \<Rightarrow> QuizQuestion list" where
  "parse_questions lines =
     (let st = scan_lines lines scan_init
      in match_answers (answers st) 0 (push_current st))"

text \<open>
  The questions that were accumulating when a question heading was met or when the scan
  ended, in that order, each as it was at that moment: the candidates for the output list.
\<close>

fun accumulated :: "jsstring list \<Rightarrow> scan \<Rightarrow> QuizQuestion list" where
  "accumulated [] st = (case currentQuestion st of None \<Rightarrow> [] | Some q \<Rightarrow> [q])"
| "accumulated (raw # rest) st =
     (if match_question (trim raw)
      then (case currentQuestion st of None \<Rightarrow> [] | Some q \<Rightarrow> [q]) else [])
     @ accumulated rest (scan_line raw (case rest of [] \<Rightarrow> None | l # _ \<Rightarrow> Some l) st)"

definition invalidQuestions :: "QuizQuestion list \<Rightarrow> QuizQuestion list" where
  "invalidQuestions qs = filter (\<lambda>q. correct_answer q = [] \<or> length (options q) = 0) qs"

text \<open>What the parser prints on the console.\<close>

datatype console_line =
  Warn_no_questions jsstring
| Warn_missing_answers nat jsstring
| Error_parsing jsstring

text \<open>The body of the \<open>try\<close> block, on the text of the file: the result and the warnings.\<close>

definition parse_content :: "jsstring \<Rightarrow> jsstring \<Rightarrow> ParsedQuiz option \<times> console_line list" where
  "parse_content filePath content =
     (let lines = lines_of content;
          chapter_id' = extractChapterId filePath;
          title' = title_loop lines [];
          description' = extract_description lines;
          questions' = parse_questions lines
      in if length questions' = 0 then (None, [Warn_no_questions filePath])
         else (Some \<lparr>chapter_id = chapter_id',
                      title = (if title' \<noteq> [] then title' else js ''Quiz''),
                      description = (if description' \<noteq> [] then description'
                                     else js ''Test your knowledge!''),
                      passing_percentage = 70,
                      questions = questions'\<rparr>,
               (if length (invalidQuestions questions') > 0
                then [Warn_missing_answers (length (invalidQuestions questions')) filePath]
                else [])))"

text \<open>
  The file system the parser reads (\<open>readFileSync\<close> throws on a file it cannot read, and the
  \<open>catch\<close> block reports it) and the console it writes.
\<close>

record world =
  files :: "jsstring \<Rightarrow> jsstring option"
  console :: "console_line list"

definition parseQuizFile :: "world \<Rightarrow> jsstring \<Rightarrow> ParsedQuiz option \<times> world" where
  "parseQuizFile w filePath =
     (case files w filePath of
        None \<Rightarrow> (None, w\<lparr>console := console w @ [Error_parsing filePath]\<rparr>)
      | Some content \<Rightarrow>
          (let (r, out) = parse_content filePath content
           in (r, w\<lparr>console := console w @ out\<rparr>)))"

text \<open>
  The description, said without the loop: the lines after the first line that starts with
  \<open>'# '\<close> and before the first line that contains the marker of the questions section,
  those of them that are not blank and start with neither \<open>**\<close>, \<open>-\<close> nor \<open>#\<close> (the
  tests of the code, on the line as it is in the file), trimmed, joined with single spaces,
  cut at 200 code units.
\<close>

definition kept_line :: "jsstring \<Rightarrow> bool" where
  "kept_line line =
     (trim line \<noteq> [] \<and> \<not> startsWith line (js ''**'') \<and> \<not> startsWith line (js ''-'')
      \<and> \<not> startsWith line (js ''#''))"

definition kept_lines :: "jsstring list \<Rightarrow> jsstring list" where
  "kept_lines lines =
     filter kept_line
       (takeWhile (\<lambda>l. \<not> includes_str l questions_marker)
          (drop 1 (dropWhile (\<lambda>l. \<not> startsWith l (js ''# '')) lines)))"

definition kept_description :: "jsstring list \<Rightarrow> jsstring" where
  "kept_description lines = take 200 (join (js '' '') (map trim (kept_lines lines)))"

text \<open>
  The description as the claim words it, with the words read as Markdown has them. A
  heading starts with \<open>#\<close>. A list item starts with a bullet (\<open>-\<close>, \<open>*\<close> or \<open>+\<close>) and a
  space, or with a number, a dot and a space; it may be indented. An emphasis-only line is
  one run of text between an opening and an equal closing run of \<open>*\<close> or of \<open>_\<close>. The
  questions section starts at its heading, or at the first question heading.
\<close>

definition heading_line :: "jsstring \<Rightarrow> bool" where
  "heading_line line = startsWith (trim line) (js ''#'')"

definition list_item :: "jsstring \<Rightarrow> bool" where
  "list_item line =
     (let t = trim line; ds = takeWhile isDigit t
      in (case t of
            b # sp # _ \<Rightarrow> (b = 0x2D \<or> b = 0x2A \<or> b = 0x2B) \<and> sp = 0x20
          | _ \<Rightarrow> False)
         \<or> (ds \<noteq> [] \<and> startsWith (drop (length ds) t) (js ''. '')))"

definition emphasis_only :: "jsstring \<Rightarrow> bool" where
  "emphasis_only line =
     (case trim line of
        [] \<Rightarrow> False
      | c # cs \<Rightarrow>
          (c = 0x2A \<or> c = 0x5F) \<and>
          (let opening = takeWhile (\<lambda>x. x = c) (c # cs);
               rest = dropWhile (\<lambda>x. x = c) (c # cs);
               inner = takeWhile (\<lambda>x. x \<noteq> c) rest;
               closing = dropWhile (\<lambda>x. x \<noteq> c) rest
           in inner \<noteq> [] \<and> closing = opening))"

definition questions_section_start :: "jsstring \<Rightarrow> bool" where
  "questions_section_start line =
     (includes_str line questions_marker \<or> match_question (trim line))"

definition claim_plain_line :: "jsstring \<Rightarrow> bool" where
  "claim_plain_line line =
     (trim line \<noteq> [] \<and> \<not> emphasis_only line \<and> \<not> list_item line \<and> \<not> heading_line line)"

definition claim_description :: "jsstring list \<Rightarrow> jsstring" where
  "claim_description lines =
     take 200 (join (js '' '') (map trim
       (filter claim_plain_line
          (takeWhile (\<lambda>l. \<not> questions_section_start l)
             (drop 1 (dropWhile (\<lambda>l. \<not> startsWith l (js ''# '')) lines))))))"

text \<open>An option key as the option expressions extract it: one letter from A to D.\<close>

definition letter_key :: "jsstring \<Rightarrow> bool" where
  "letter_key k = (\<exists>c. isAtoD c \<and> k = [c])"

section \<open>The quiz interface\<close>

text \<open>
  The component \<open>QuizInterface\<close> as a state machine: its state variables, and one step for
  each event of the user interface. The state \<open>answers\<close> is an object used as a dictionary
  from question identifiers to the selected option keys; it is the association list
  \<open>selected\<close>, in the order in which the keys were created. The state \<open>results\<close> is
  \<open>scored\<close>.

  The properties \<open>quizId\<close> and \<open>questions\<close> come from the page. The page can render the
  mounted component again with the properties of another quiz: \<open>loadContent\<close> neither
  aborts an earlier load nor checks that its answer is still wanted, and the component has no
  \<open>key\<close>, so the answer of an earlier load that arrives late replaces \<open>quizData\<close> while the
  component stays mounted and keeps its state. That is the event \<open>Rerender\<close>.
\<close>

record QuizResult =
  question_id :: jsstring
  selected_answer :: jsstring
  result_correct_answer :: jsstring
  is_correct :: bool
  result_explanation :: jsstring

record ScoredQuiz =
  attempt_number :: nat
  total_questions :: nat
  correct_answers :: nat
  score_percentage :: nat
  passed :: bool
  results :: "QuizResult list"
  time_taken_seconds :: nat

record quiz_state =
  currentQuestionIndex :: nat
  selected :: "(jsstring \<times> jsstring) list"
  isSubmitting :: bool
  scored :: "ScoredQuiz option"

record submission =
  quiz_id :: int
  started_at :: jsstring
  submitted_answers :: "(jsstring \<times> jsstring) list"

definition initial_state :: quiz_state where
  "initial_state = \<lparr>currentQuestionIndex = 0, selected = [], isSubmitting = False, scored = None\<rparr>"

text \<open>
  \<open>Object.entries\<close> and \<open>Object.keys\<close> list the keys that are array indices (canonical
  decimal numbers below \<open>2^32 - 1\<close>) first, in ascending order, then the other keys in the
  order of their creation.
\<close>

definition is_array_index :: "jsstring \<Rightarrow> bool" where
  "is_array_index k =
     (k \<noteq> [] \<and> list_all isDigit k \<and> (k = js ''0'' \<or> hd k \<noteq> 0x30)
      \<and> parseInt k < 2 ^ 32 - 1)"

definition object_entries :: "(jsstring \<times> jsstring) list \<Rightarrow> (jsstring \<times> jsstring) list" where
  "object_entries obj =
     sort_key (\<lambda>e. parseInt (fst e)) (filter (\<lambda>e. is_array_index (fst e)) obj)
     @ filter (\<lambda>e. \<not> is_array_index (fst e)) obj"

definition answeredCount :: "quiz_state \<Rightarrow> nat" where
  "answeredCount st = length (map fst (object_entries (selected st)))"

definition allAnswered :: "QuizQuestion list \<Rightarrow> quiz_state \<Rightarrow> bool" where
  "allAnswered qs st = (answeredCount st = length qs)"

text \<open>\<open>{ ...prev, [questionId]: answerKey }\<close>\<close>

fun set_answer :: "(jsstring \<times> jsstring) list \<Rightarrow> jsstring \<Rightarrow> jsstring \<Rightarrow> (jsstring \<times> jsstring) list" where
  "set_answer [] questionId answerKey = [(questionId, answerKey)]"
| "set_answer ((k, v) # prev) questionId answerKey =
     (if k = questionId then (questionId, answerKey) # prev
      else (k, v) # set_answer prev questionId answerKey)"

definition handleAnswerSelect :: "jsstring \<Rightarrow> jsstring \<Rightarrow> quiz_state \<Rightarrow> quiz_state" where
  "handleAnswerSelect questionId answerKey st =
     st\<lparr>selected := set_answer (selected st) questionId answerKey\<rparr>"

definition handleNext :: "QuizQuestion list \<Rightarrow> quiz_state \<Rightarrow> quiz_state" where
  "handleNext qs st =
     (if currentQuestionIndex st + 1 < length qs
      then st\<lparr>currentQuestionIndex := currentQuestionIndex st + 1\<rparr> else st)"

definition handlePrevious :: "quiz_state \<Rightarrow> quiz_state" where
  "handlePrevious st =
     (if currentQuestionIndex st > 0
      then st\<lparr>currentQuestionIndex := currentQuestionIndex st - 1\<rparr> else st)"

text \<open>
  \<open>handleSubmit\<close> up to the request: the payload is built from the answers of the state in
  which the button was pressed.
\<close>

definition handleSubmit :: "int \<Rightarrow> jsstring \<Rightarrow> quiz_state \<Rightarrow> quiz_state \<times> submission" where
  "handleSubmit quizId quizStartTime st =
     (st\<lparr>isSubmitting := True\<rparr>,
      \<lparr>quiz_id = quizId, started_at = quizStartTime,
       submitted_answers = object_entries (selected st)\<rparr>)"

text \<open>
  The rest of \<open>handleSubmit\<close>, when the request ends: a scored quiz in the response is
  stored, a failure is only reported; \<open>isSubmitting\<close> is reset in both cases.
\<close>

definition handleResponse :: "ScoredQuiz option \<Rightarrow> quiz_state \<Rightarrow> quiz_state" where
  "handleResponse r st =
     (case r of
        Some scoredQuiz \<Rightarrow> st\<lparr>scored := Some scoredQuiz, isSubmitting := False\<rparr>
      | None \<Rightarrow> st\<lparr>isSubmitting := False\<rparr>)"

definition handleRetake :: "quiz_state \<Rightarrow> quiz_state" where
  "handleRetake st = st\<lparr>selected := [], currentQuestionIndex := 0, scored := None\<rparr>"

text \<open>
  The events: a click on the radio button of the \<open>n\<close>-th option of the question shown, on
  one of the buttons, the end of a request, and a rendering with new properties \<open>quizId\<close>
  and \<open>questions\<close>.
\<close>

datatype event =
  SelectOption nat
| ClickNext
| ClickPrevious
| ClickSubmit
| Response "ScoredQuiz option"
| ClickRetake
| Rerender int "QuizQuestion list"

text \<open>
  One event under the properties \<open>quizId\<close> and \<open>qs\<close> of the last rendering (a rendering
  with new properties changes no state variable; \<open>run\<close> below passes the new properties
  on). With results the component shows the results view, whose only button of the
  component is the retake button. Otherwise it shows the question at the current index (a
  missing question is an error of the rendering, and no button exists); the submit button is
  disabled unless all questions are answered and no request is running.
\<close>

definition step :: "int \<Rightarrow> jsstring \<Rightarrow> QuizQuestion list \<Rightarrow> quiz_state \<Rightarrow> event \<Rightarrow> quiz_state \<times> submission option" where
  "step quizId quizStartTime qs st ev =
     (case ev of
        Response r \<Rightarrow> (if isSubmitting st then (handleResponse r st, None) else (st, None))
      | ClickRetake \<Rightarrow> (if scored st \<noteq> None then (handleRetake st, None) else (st, None))
      | _ \<Rightarrow>
          if scored st \<noteq> None \<or> \<not> currentQuestionIndex st < length qs then (st, None)
          else (let currentQuestion = qs ! currentQuestionIndex st
                in case ev of
                     SelectOption n \<Rightarrow>
                       (if n < length (options currentQuestion)
                        then (handleAnswerSelect (qid currentQuestion)
                                (key (options currentQuestion ! n)) st, None)
                        else (st, None))
                   | ClickNext \<Rightarrow>
                       (if currentQuestionIndex st = length qs - 1 then (st, None)
                        else (handleNext qs st, None))
                   | ClickPrevious \<Rightarrow>
                       (if currentQuestionIndex st = 0 then (st, None)
                        else (handlePrevious st, None))
                   | ClickSubmit \<Rightarrow>
                       (if \<not> allAnswered qs st \<or> isSubmitting st then (st, None)
                        else (let (st', payload) = handleSubmit quizId quizStartTime st
                              in (st', Some payload)))
                   | _ \<Rightarrow> (st, None)))"

text \<open>
  A sequence of events, from the properties of the first rendering: the final state and the
  submissions sent, in order.
\<close>

fun run :: "int \<Rightarrow> jsstring \<Rightarrow> QuizQuestion list \<Rightarrow> quiz_state \<Rightarrow> event list \<Rightarrow> quiz_state \<times> submission list" where
  "run quizId quizStartTime qs st [] = (st, [])"
| "run quizId quizStartTime qs st (Rerender quizId' qs' # evs) =
     run quizId' quizStartTime qs' st evs"
| "run quizId quizStartTime qs st (ev # evs) =
     (let (st', sent) = step quizId quizStartTime qs st ev;
          (st'', rest) = run quizId quizStartTime qs st' evs
      in (st'', (case sent of None \<Rightarrow> rest | Some payload \<Rightarrow> payload # rest)))"

text \<open>No rendering with new properties among the events.\<close>

definition fixed_props :: "event list \<Rightarrow> bool" where
  "fixed_props evs = list_all (\<lambda>ev. case ev of Rerender i q \<Rightarrow> False | _ \<Rightarrow> True) evs"

section \<open>Invariants of the question loop and of the interface\<close>

text \<open>
  \<open>extends q q'\<close>: the question \<open>q'\<close> is \<open>q\<close> after some lines of annotations: same
  identifier and text, options only added, each under a letter key.
\<close>

definition extends :: "QuizQuestion \<Rightarrow> QuizQuestion \<Rightarrow> bool" where
  "extends q q' =
     (qid q' = qid q \<and> question q' = question q \<and>
      (\<exists>os. options q' = options q @ os \<and> (\<forall>opt \<in> set os. letter_key (key opt))))"

text \<open>
  What holds of the variables of the question loop after every line: the questions found
  have text and letter keys, the current question carries the current number, and the
  identifiers found are the numbers of an increasing list below the current number.
\<close>

definition scan_inv :: "scan \<Rightarrow> bool" where
  "scan_inv st =
     ((\<forall>q \<in> set (found st). question q \<noteq> [] \<and> (\<forall>opt \<in> set (options q). letter_key (key opt))) \<and>
      (\<forall>q. currentQuestion st = Some q \<longrightarrow>
           (\<forall>opt \<in> set (options q). letter_key (key opt)) \<and>
           qid q = make_id (questionNumber st) \<and> 0 < questionNumber st) \<and>
      (\<exists>ns. map qid (found st) = map make_id ns \<and> sorted_wrt (<) ns \<and>
            (\<forall>n \<in> set ns. 0 < n \<and> n < questionNumber st)))"

text \<open>The part of one turn of the loop after the question heading.\<close>

definition annotate :: "jsstring \<Rightarrow> scan \<Rightarrow> scan" where
  "annotate l st = on_answer_key l (on_explanation l (on_answer l (on_option l st)))"

text \<open>
  The answers selected in the interface are for distinct identifiers, all of them
  identifiers of questions of the quiz.
\<close>

definition answers_inv :: "QuizQuestion list \<Rightarrow> quiz_state \<Rightarrow> bool" where
  "answers_inv qs st =
     (distinct (map fst (selected st)) \<and> fst ` set (selected st) \<subseteq> qid ` set qs)"

section \<open>Example documents\<close>

text \<open>A file system with one file and an empty console.\<close>

definition world_of :: "jsstring \<Rightarrow> jsstring \<Rightarrow> world" where
  "world_of p c = \<lparr>files = (\<lambda>x. if x = p then Some c else None), console = []\<rparr>"

definition quiz_path :: jsstring where
  "quiz_path = js ''docs/quiz.md''"

text \<open>A heading alone: one question, no option, no answer.\<close>

definition doc_min :: jsstring where
  "doc_min = js ''### Question 1:T''"

definition question_min :: QuizQuestion where
  "question_min = \<lparr>qid = js ''q1'', question = js ''T'', options = [],
                    correct_answer = [], explanation = []\<rparr>"

definition quiz_min :: ParsedQuiz where
  "quiz_min = \<lparr>chapter_id = js ''quiz'', title = js ''Quiz'',
                description = js ''Test your knowledge!'', passing_percentage = 70,
                questions = [question_min]\<rparr>"

text \<open>A question with an inline answer and explanation, and an entry of the old answer key.\<close>

definition doc_both :: jsstring where
  "doc_both = js ''### Question 1:T'' @ [0x0A] @ js ''Q'' @ [0x0A] @ js ''**Answer: B)**'' @ [0x0A]
              @ js ''**Explanation:** e'' @ [0x0A] @ js ''1. **A** - z''"

definition question_inline :: QuizQuestion where
  "question_inline = \<lparr>qid = js ''q1'', question = js ''Q'', options = [],
                       correct_answer = js ''B'', explanation = js ''e''\<rparr>"

definition question_both :: QuizQuestion where
  "question_both = \<lparr>qid = js ''q1'', question = js ''Q'', options = [],
                     correct_answer = js ''A'', explanation = js ''z''\<rparr>"

definition quiz_both :: ParsedQuiz where
  "quiz_both = \<lparr>chapter_id = js ''quiz'', title = js ''Quiz'',
                 description = js ''Test your knowledge!'', passing_percentage = 70,
                 questions = [question_both]\<rparr>"

text \<open>A question whose answer is the key of none of its options.\<close>

definition doc_mismatch :: jsstring where
  "doc_mismatch = js ''### Question 1:T'' @ [0x0A] @ js ''Q'' @ [0x0A] @ js ''A) x'' @ [0x0A]
                  @ js ''**Answer: B)**''"

definition question_mismatch :: QuizQuestion where
  "question_mismatch = \<lparr>qid = js ''q1'', question = js ''Q'',
                         options = [\<lparr>key = js ''A'', option_text = js ''x''\<rparr>],
                         correct_answer = js ''B'', explanation = []\<rparr>"

definition quiz_mismatch :: ParsedQuiz where
  "quiz_mismatch = \<lparr>chapter_id = js ''quiz'', title = js ''Quiz'',
                     description = js ''Test your knowledge!'', passing_percentage = 70,
                     questions = [question_mismatch]\<rparr>"

text \<open>A second question, with one option, for the interface.\<close>

definition question_second :: QuizQuestion where
  "question_second = \<lparr>qid = js ''q2'', question = js ''R'',
                       options = [\<lparr>key = js ''A'', option_text = js ''y''\<rparr>],
                       correct_answer = js ''A'', explanation = []\<rparr>"

text \<open>Three headings, the second without any text.\<close>

definition doc_skip :: jsstring where
  "doc_skip = js ''### Question 1:a'' @ [0x0A] @ js ''x'' @ [0x0A] @ js ''### Question 7:'' @ [0x0A]
              @ [0x0A] @ js ''### Question 2:b''"

definition question_skip_1 :: QuizQuestion where
  "question_skip_1 = \<lparr>qid = js ''q1'', question = js ''x'', options = [],
                       correct_answer = [], explanation = []\<rparr>"

definition question_skip_2 :: QuizQuestion where
  "question_skip_2 = \<lparr>qid = js ''q2'', question = [], options = [],
                       correct_answer = [], explanation = []\<rparr>"

definition question_skip_3 :: QuizQuestion where
  "question_skip_3 = \<lparr>qid = js ''q3'', question = js ''b'', options = [],
                       correct_answer = [], explanation = []\<rparr>"

definition quiz_skip :: ParsedQuiz where
  "quiz_skip = \<lparr>chapter_id = js ''quiz'', title = js ''Quiz'',
                 description = js ''Test your knowledge!'', passing_percentage = 70,
                 questions = [\<lparr>qid = js ''q1'', question = js ''x'', options = [],
                               correct_answer = [], explanation = []\<rparr>,
                              \<lparr>qid = js ''q3'', question = js ''b'', options = [],
                               correct_answer = [], explanation = []\<rparr>]\<rparr>"

text \<open>A title, two lines of description around a list item, the questions section.\<close>

definition doc_described :: jsstring where
  "doc_described = js ''# T'' @ [0x0A] @ js ''ab'' @ [0x0A] @ js ''- item'' @ [0x0A] @ js ''cd''
                   @ [0x0A] @ questions_marker @ [0x0A] @ js ''### Question 1:T''"

definition quiz_described :: ParsedQuiz where
  "quiz_described = \<lparr>chapter_id = js ''quiz'', title = js ''T'',
                      description = js ''ab cd'', passing_percentage = 70,
                      questions = [question_min]\<rparr>"

text \<open>
  A title, a line that starts in bold and goes on in plain text, a list item with a star,
  the questions section.
\<close>

definition doc_note :: jsstring where
  "doc_note = js ''# T'' @ [0x0A] @ js ''**Note:** a'' @ [0x0A] @ js ''* b'' @ [0x0A]
              @ questions_marker @ [0x0A] @ js ''### Question 1:T''"

definition quiz_note :: ParsedQuiz where
  "quiz_note = \<lparr>chapter_id = js ''quiz'', title = js ''T'',
                 description = js ''* b'', passing_percentage = 70,
                 questions = [question_min]\<rparr>"

text \<open>
  A document in the format of the example of the specification: a title, one question with
  its text in bold, a plain option and an option in bold, and an inline answer.
\<close>

definition doc_example :: jsstring where
  "doc_example = js ''# Chapter Quiz'' @ [0x0A] @ js ''### Question 1: Topic'' @ [0x0A]
                 @ js ''**What is x?**'' @ [0x0A] @ js ''A) x'' @ [0x0A] @ js ''**B)** y''
                 @ [0x0A] @ js ''**Answer: B)**''"

definition quiz_example :: ParsedQuiz where
  "quiz_example = \<lparr>chapter_id = js ''quiz'', title = js ''Chapter Quiz'',
                    description = js ''A) x'', passing_percentage = 70,
                    questions = [\<lparr>qid = js ''q1'', question = js ''What is x?'',
                                  options = [\<lparr>key = js ''A'', option_text = js ''x''\<rparr>,
                                             \<lparr>key = js ''B'', option_text = js ''y''\<rparr>],
                                  correct_answer = js ''B'', explanation = []\<rparr>]\<rparr>"

section \<open>Strings and numbers\<close>

lemma split_not_Nil: "split sep s \<noteq> []"
  by (induction s) (auto split: list.splits)

lemma parseInt_acc_append: "parseInt_acc a (xs @ ys) = parseInt_acc (parseInt_acc a xs) ys"
  by (induction xs arbitrary: a) auto

lemma parseInt_digits: "parseInt (digits n) = n"
proof (induction n rule: digits.induct)
  case (1 n)
  show ?case
  proof (cases "n < 10")
    case True
    then show ?thesis by (simp add: parseInt_def digits.simps [of n])
  next
    case False
    with 1 have "parseInt (digits (n div 10)) = n div 10" by simp
    with False show ?thesis
      by (simp add: parseInt_def digits.simps [of n] parseInt_acc_append)
  qed
qed

lemma digits_inject: "digits m = digits n \<Longrightarrow> m = n"
  by (metis parseInt_digits)

section \<open>The description\<close>

lemma last_dropWhile_eq: "dropWhile P xs \<noteq> [] \<Longrightarrow> last (dropWhile P xs) = last xs"
  by (induction xs) (auto split: if_splits)

lemma trim_ends:
  assumes "trim l \<noteq> []"
  shows "\<not> isWhiteSpace (hd (trim l))" and "\<not> isWhiteSpace (last (trim l))"
proof -
  let ?a = "dropWhile isWhiteSpace l"
  let ?b = "dropWhile isWhiteSpace (rev ?a)"
  from assms have b: "?b \<noteq> []" by (simp add: trim_def)
  then have a: "?a \<noteq> []" by (cases "dropWhile isWhiteSpace l") simp_all
  have "last (trim l) = hd ?b" using b by (simp add: trim_def last_rev)
  with b show "\<not> isWhiteSpace (last (trim l))" by (simp add: hd_dropWhile)
  have "hd (trim l) = last ?b" using b by (simp add: trim_def hd_rev)
  also have "\<dots> = last (rev ?a)" using b by (rule last_dropWhile_eq)
  also have "\<dots> = hd ?a" using a by (simp add: last_rev)
  finally show "\<not> isWhiteSpace (hd (trim l))" using a by (simp add: hd_dropWhile)
qed

lemma trim_space_after:
  assumes "t \<noteq> []" "\<not> isWhiteSpace (hd t)" "\<not> isWhiteSpace (last t)"
  shows "trim (t @ js '' '') = t"
proof -
  have sp: "js '' '' = [32]" by (simp add: js_def)
  have ws: "isWhiteSpace 32" by (simp add: isWhiteSpace_def)
  from assms have 1: "dropWhile isWhiteSpace (t @ [32]) = t @ [32]"
    by (cases t) auto
  from assms have 2: "dropWhile isWhiteSpace (rev t) = rev t"
    by (simp add: dropWhile_eq_self_iff hd_rev)
  show ?thesis by (simp add: trim_def sp 1 ws 2)
qed

lemma concat_join:
  "ls \<noteq> [] \<Longrightarrow> concat (map (\<lambda>l. l @ sep) ls) = join sep ls @ sep"
  by (induction sep ls rule: join.induct) auto

lemma join_not_Nil: "ls \<noteq> [] \<Longrightarrow> \<forall>l \<in> set ls. l \<noteq> [] \<Longrightarrow> join sep ls \<noteq> []"
  by (induction sep ls rule: join.induct) auto

lemma hd_join: "ls \<noteq> [] \<Longrightarrow> \<forall>l \<in> set ls. l \<noteq> [] \<Longrightarrow> hd (join sep ls) = hd (hd ls)"
  by (induction sep ls rule: join.induct) auto

lemma last_join: "ls \<noteq> [] \<Longrightarrow> \<forall>l \<in> set ls. l \<noteq> [] \<Longrightarrow> last (join sep ls) = last (last ls)"
proof (induction sep ls rule: join.induct)
  case (3 sep x y ys)
  then have "join sep (y # ys) \<noteq> []" by (intro join_not_Nil) auto
  with 3 show ?case by simp
qed auto

lemma trim_concat:
  assumes "\<forall>l \<in> set ls. l \<noteq> [] \<and> \<not> isWhiteSpace (hd l) \<and> \<not> isWhiteSpace (last l)"
  shows "trim (concat (map (\<lambda>l. l @ js '' '') ls)) = join (js '' '') ls"
proof (cases "ls = []")
  case True
  then show ?thesis by (simp add: trim_def)
next
  case False
  let ?t = "join (js '' '') ls"
  from False assms have ne: "\<forall>l \<in> set ls. l \<noteq> []" by simp
  from False assms have "\<not> isWhiteSpace (hd (hd ls))" "\<not> isWhiteSpace (last (last ls))"
    by (simp_all)
  with join_not_Nil [OF False ne] hd_join [OF False ne] last_join [OF False ne] have "?t \<noteq> []" "\<not> isWhiteSpace (hd ?t)" "\<not> isWhiteSpace (last ?t)"
    by simp_all
  then show ?thesis using False by (simp add: concat_join trim_space_after)
qed

lemma description_loop_inside:
  "description_loop ls True d =
     d @ concat (map (\<lambda>l. trim l @ js '' '')
           (filter kept_line (takeWhile (\<lambda>l. \<not> includes_str l questions_marker) ls)))"
  by (induction ls arbitrary: d) (auto simp: kept_line_def)

lemma description_loop_outside:
  "description_loop ls False d =
     d @ concat (map (\<lambda>l. trim l @ js '' '') (kept_lines ls))"
  by (induction ls arbitrary: d) (auto simp: kept_lines_def description_loop_inside)

lemma extract_description_kept: "extract_description ls = kept_description ls"
proof -
  have "\<forall>l \<in> set (map trim (kept_lines ls)).
          l \<noteq> [] \<and> \<not> isWhiteSpace (hd l) \<and> \<not> isWhiteSpace (last l)"
    by (auto simp: kept_lines_def kept_line_def trim_ends)
  from trim_concat [OF this]
  have "trim (concat (map (\<lambda>l. trim l @ js '' '') (kept_lines ls))) =
          join (js '' '') (map trim (kept_lines ls))"
    by (simp add: comp_def)
  then show ?thesis
    by (simp add: extract_description_def kept_description_def description_loop_outside)
qed

section \<open>The question loop\<close>

lemma match_answers_length: "length (match_answers m k qs) = length qs"
  by (induction qs arbitrary: k) (auto split: option.splits)

lemma match_answers_nth:
  "i < length qs \<Longrightarrow>
   match_answers m k qs ! i =
     (case m (k + i + 1) of
        Some (a, e) \<Rightarrow> (qs ! i)\<lparr>correct_answer := a, explanation := e\<rparr>
      | None \<Rightarrow> qs ! i)"
proof (induction qs arbitrary: k i)
  case Nil
  then show ?case by simp
next
  case (Cons q qs)
  show ?case
  proof (cases i)
    case 0
    then show ?thesis by (simp split: option.splits)
  next
    case (Suc j)
    with Cons.prems have "j < length qs" by simp
    from Cons.IH [OF this, of "k + 1"] Suc show ?thesis by (simp split: option.splits)
  qed
qed

lemma match_answers_qid: "map qid (match_answers m k qs) = map qid qs"
  by (induction qs arbitrary: k) (auto split: option.splits)

lemma match_answers_question: "map question (match_answers m k qs) = map question qs"
  by (induction qs arbitrary: k) (auto split: option.splits)

lemma match_answers_options: "map options (match_answers m k qs) = map options qs"
  by (induction qs arbitrary: k) (auto split: option.splits)

lemma title_loop_no_heading:
  "\<forall>l \<in> set ls. \<not> startsWith l (js ''# '') \<Longrightarrow> title_loop ls t = t"
  by (induction ls) auto

lemma parse_content_None:
  "parse_questions (lines_of content) = [] \<Longrightarrow>
   parse_content p content = (None, [Warn_no_questions p])"
  by (simp add: parse_content_def Let_def)

lemma parse_content_Some:
  assumes "fst (parse_content p content) = Some quiz"
  shows "questions quiz = parse_questions (lines_of content)"
    and "questions quiz \<noteq> []"
    and "chapter_id quiz = extractChapterId p"
    and "passing_percentage quiz = 70"
    and "title quiz = (if title_loop (lines_of content) [] \<noteq> []
                       then title_loop (lines_of content) [] else js ''Quiz'')"
    and "description quiz = (if extract_description (lines_of content) \<noteq> []
                       then extract_description (lines_of content) else js ''Test your knowledge!'')"
  using assms by (auto simp: parse_content_def Let_def split: if_splits)

lemma parseQuizFile_fst:
  "fst (parseQuizFile w p) = (case files w p of None \<Rightarrow> None | Some c \<Rightarrow> fst (parse_content p c))"
  by (simp add: parseQuizFile_def split: option.splits prod.splits)

lemma parseQuizFile_Some:
  "fst (parseQuizFile w p) = Some quiz \<Longrightarrow> \<exists>c. files w p = Some c \<and> fst (parse_content p c) = Some quiz"
  by (simp add: parseQuizFile_fst split: option.splits)

lemma extends_refl: "extends q q"
  by (simp add: extends_def)

lemma extends_trans: "extends a b \<Longrightarrow> extends b c \<Longrightarrow> extends a c"
  unfolding extends_def by (elim conjE exE) (rule conjI, simp, rule conjI, simp, rule_tac x = "os @ osa" in exI, auto)

lemma match_option_key: "match_option l = Some (k, t) \<Longrightarrow> letter_key k"
  by (auto simp: match_option_def match_option_bold_def match_option_plain_def letter_key_def
           split: option.splits list.splits if_splits)

lemma on_option_frame:
  "found (on_option l st) = found st" "questionNumber (on_option l st) = questionNumber st"
  by (auto simp: on_option_def split: option.splits prod.splits)

lemma on_answer_frame:
  "found (on_answer l st) = found st" "questionNumber (on_answer l st) = questionNumber st"
  by (auto simp: on_answer_def split: option.splits prod.splits)

lemma on_explanation_frame:
  "found (on_explanation l st) = found st" "questionNumber (on_explanation l st) = questionNumber st"
  by (auto simp: on_explanation_def split: option.splits prod.splits)

lemma on_answer_key_frame:
  "found (on_answer_key l st) = found st" "questionNumber (on_answer_key l st) = questionNumber st"
  "currentQuestion (on_answer_key l st) = currentQuestion st"
  by (auto simp: on_answer_key_def split: option.splits prod.splits)

lemma on_option_current:
  "currentQuestion (on_option l st) = Some q' \<Longrightarrow> \<exists>q. currentQuestion st = Some q \<and> extends q q'"
  by (auto simp: on_option_def extends_def split: option.splits prod.splits dest: match_option_key)

lemma on_answer_current:
  "currentQuestion (on_answer l st) = Some q' \<Longrightarrow> \<exists>q. currentQuestion st = Some q \<and> extends q q'"
  by (auto simp: on_answer_def extends_def split: option.splits prod.splits)

lemma on_explanation_current:
  "currentQuestion (on_explanation l st) = Some q' \<Longrightarrow> \<exists>q. currentQuestion st = Some q \<and> extends q q'"
  by (auto simp: on_explanation_def extends_def split: option.splits prod.splits)

lemma on_option_keeps: "currentQuestion st \<noteq> None \<Longrightarrow> currentQuestion (on_option l st) \<noteq> None"
  by (auto simp: on_option_def split: option.splits prod.splits)

lemma on_answer_keeps: "currentQuestion st \<noteq> None \<Longrightarrow> currentQuestion (on_answer l st) \<noteq> None"
  by (auto simp: on_answer_def split: option.splits prod.splits)

lemma on_explanation_keeps: "currentQuestion st \<noteq> None \<Longrightarrow> currentQuestion (on_explanation l st) \<noteq> None"
  by (auto simp: on_explanation_def split: option.splits prod.splits)

lemma annotate_frame:
  "found (annotate l st) = found st" "questionNumber (annotate l st) = questionNumber st"
  by (simp_all add: annotate_def on_answer_key_frame on_explanation_frame on_answer_frame on_option_frame)

lemma annotate_current:
  assumes "currentQuestion (annotate l st) = Some q'"
  shows "\<exists>q. currentQuestion st = Some q \<and> extends q q'"
proof -
  from assms have "currentQuestion (on_explanation l (on_answer l (on_option l st))) = Some q'"
    by (simp add: annotate_def on_answer_key_frame)
  then obtain q2 where q2: "currentQuestion (on_answer l (on_option l st)) = Some q2" "extends q2 q'"
    using on_explanation_current by blast
  then obtain q1 where q1: "currentQuestion (on_option l st) = Some q1" "extends q1 q2"
    using on_answer_current by blast
  then obtain q where q: "currentQuestion st = Some q" "extends q q1"
    using on_option_current by blast
  from q q1 q2 show ?thesis by (blast intro: extends_trans)
qed

lemma annotate_keeps: "currentQuestion st \<noteq> None \<Longrightarrow> currentQuestion (annotate l st) \<noteq> None"
  by (simp add: annotate_def on_answer_key_frame on_explanation_keeps on_answer_keeps on_option_keeps)

lemma scan_line_annotate: "scan_line raw next st = annotate (trim raw) (on_question (trim raw) next st)"
  by (simp add: scan_line_def annotate_def Let_def)

lemma push_current_cases:
  "push_current st =
     (case currentQuestion st of
        None \<Rightarrow> found st
      | Some q \<Rightarrow> if question q \<noteq> [] then found st @ [q] else found st)"
  by (simp add: push_current_def truthy_array_def split: option.splits)

lemma scan_inv_init: "scan_inv scan_init"
  by (simp add: scan_inv_def scan_init_def)

lemma scan_inv_push:
  assumes "scan_inv st"
  shows "\<forall>q \<in> set (push_current st). question q \<noteq> [] \<and> (\<forall>opt \<in> set (options q). letter_key (key opt))"
    and "\<exists>ns. map qid (push_current st) = map make_id ns \<and> sorted_wrt (<) ns \<and>
            (\<forall>n \<in> set ns. 0 < n \<and> n < questionNumber st + 1)"
proof -
  show "\<forall>q \<in> set (push_current st). question q \<noteq> [] \<and> (\<forall>opt \<in> set (options q). letter_key (key opt))"
    using assms by (auto simp: scan_inv_def push_current_cases split: option.splits if_splits)
  from assms obtain ns where ns: "map qid (found st) = map make_id ns"
    "sorted_wrt (<) ns" "\<forall>n \<in> set ns. 0 < n \<and> n < questionNumber st"
    unfolding scan_inv_def by blast
  show "\<exists>ns. map qid (push_current st) = map make_id ns \<and> sorted_wrt (<) ns \<and>
            (\<forall>n \<in> set ns. 0 < n \<and> n < questionNumber st + 1)"
  proof (cases "push_current st = found st")
    case True
    with ns show ?thesis by (intro exI [of _ ns]) auto
  next
    case False
    then obtain q where q: "currentQuestion st = Some q" "push_current st = found st @ [q]"
      by (auto simp: push_current_cases split: option.splits if_splits)
    with assms have "qid q = make_id (questionNumber st)" "0 < questionNumber st"
      by (auto simp: scan_inv_def)
    with ns q show ?thesis
      by (intro exI [of _ "ns @ [questionNumber st]"]) (auto simp: sorted_wrt_append)
  qed
qed

lemma scan_inv_on_question:
  assumes "scan_inv st"
  shows "scan_inv (on_question l next st)"
proof (cases "match_question l")
  case False
  with assms show ?thesis by (simp add: on_question_def)
next
  case True
  from scan_inv_push [OF assms] True show ?thesis
    by (simp add: on_question_def scan_inv_def Let_def)
qed

lemma scan_inv_annotate:
  assumes "scan_inv st"
  shows "scan_inv (annotate l st)"
  unfolding scan_inv_def
proof (intro conjI allI impI)
  show "\<forall>q\<in>set (found (annotate l st)). question q \<noteq> [] \<and> (\<forall>opt\<in>set (options q). letter_key (key opt))"
    using assms by (simp add: annotate_frame scan_inv_def)
  show "\<exists>ns. map qid (found (annotate l st)) = map make_id ns \<and> sorted_wrt (<) ns \<and>
         (\<forall>n\<in>set ns. 0 < n \<and> n < questionNumber (annotate l st))"
    using assms by (simp add: annotate_frame scan_inv_def)
next
  fix q' assume "currentQuestion (annotate l st) = Some q'"
  then obtain q where q: "currentQuestion st = Some q" "extends q q'"
    using annotate_current by blast
  with assms have "(\<forall>opt \<in> set (options q). letter_key (key opt))"
    "qid q = make_id (questionNumber st)" "0 < questionNumber st"
    by (auto simp: scan_inv_def)
  with q show "\<forall>opt\<in>set (options q'). letter_key (key opt)"
    "qid q' = make_id (questionNumber (annotate l st))" "0 < questionNumber (annotate l st)"
    by (auto simp: extends_def annotate_frame)
qed

lemma scan_inv_scan_line: "scan_inv st \<Longrightarrow> scan_inv (scan_line raw next st)"
  by (simp add: scan_line_annotate scan_inv_annotate scan_inv_on_question)

lemma scan_inv_scan_lines: "scan_inv st \<Longrightarrow> scan_inv (scan_lines ls st)"
  by (induction ls arbitrary: st) (simp_all add: scan_inv_scan_line)

lemma questionNumber_scan_line:
  "questionNumber (scan_line raw next st) =
     questionNumber st + (if match_question (trim raw) then 1 else 0)"
  by (simp add: scan_line_annotate annotate_frame on_question_def Let_def)

lemma questionNumber_scan_lines:
  "questionNumber (scan_lines ls st) =
     questionNumber st + length (filter (\<lambda>l. match_question (trim l)) ls)"
  by (induction ls arbitrary: st) (simp_all add: questionNumber_scan_line)

lemma match_answers_set:
  "q' \<in> set (match_answers m k qs) \<Longrightarrow>
   \<exists>q \<in> set qs. question q' = question q \<and> options q' = options q \<and> qid q' = qid q"
  by (induction qs arbitrary: k) (auto split: option.splits)

lemma parse_questions_props:
  shows "\<forall>q \<in> set (parse_questions ls). question q \<noteq> [] \<and> (\<forall>opt \<in> set (options q). letter_key (key opt))"
    and "\<exists>ns. map qid (parse_questions ls) = map make_id ns \<and> sorted_wrt (<) ns \<and>
            (\<forall>n \<in> set ns. 0 < n \<and> n \<le> length (filter (\<lambda>l. match_question (trim l)) ls))"
proof -
  let ?st = "scan_lines ls scan_init"
  have inv: "scan_inv ?st" by (simp add: scan_inv_scan_lines scan_inv_init)
  have pq: "parse_questions ls = match_answers (answers ?st) 0 (push_current ?st)"
    by (simp add: parse_questions_def Let_def)
  show "\<forall>q \<in> set (parse_questions ls). question q \<noteq> [] \<and> (\<forall>opt \<in> set (options q). letter_key (key opt))"
  proof
    fix q' assume "q' \<in> set (parse_questions ls)"
    then obtain q where "q \<in> set (push_current ?st)" "question q' = question q" "options q' = options q"
      unfolding pq using match_answers_set by blast
    with scan_inv_push(1) [OF inv]
    show "question q' \<noteq> [] \<and> (\<forall>opt \<in> set (options q'). letter_key (key opt))" by simp
  qed
  show "\<exists>ns. map qid (parse_questions ls) = map make_id ns \<and> sorted_wrt (<) ns \<and>
            (\<forall>n \<in> set ns. 0 < n \<and> n \<le> length (filter (\<lambda>l. match_question (trim l)) ls))"
    using scan_inv_push(2) [OF inv]
    by (simp add: pq match_answers_qid questionNumber_scan_lines scan_init_def less_Suc_eq_le)
qed

section \<open>The interface\<close>

lemma set_answer_keys: "fst ` set (set_answer prev k v) = insert k (fst ` set prev)"
  by (induction prev k v rule: set_answer.induct) auto

lemma set_answer_distinct:
  "distinct (map fst prev) \<Longrightarrow> distinct (map fst (set_answer prev k v))"
proof (induction prev k v rule: set_answer.induct)
  case (2 k' v' prev k v)
  then show ?case
    using set_answer_keys [of prev k v] by (auto simp: image_iff)
qed simp

lemma object_entries_set: "set (object_entries obj) = set obj"
  by (auto simp: object_entries_def)

lemma object_entries_length: "length (object_entries obj) = length obj"
  using sum_length_filter_compl [of "\<lambda>e. is_array_index (fst e)" obj]
  by (simp add: object_entries_def)

lemma step_sent:
  assumes "snd (step quizId t qs st ev) = Some payload"
  shows "ev = ClickSubmit" "allAnswered qs st" "\<not> isSubmitting st" "scored st = None"
    "submitted_answers payload = object_entries (selected st)" "quiz_id payload = quizId"
  using assms
  by (auto simp: step_def handleSubmit_def Let_def split: event.splits if_splits)

lemma step_inv:
  assumes "answers_inv qs st"
  shows "answers_inv qs (fst (step quizId t qs st ev))"
proof (cases ev)
  case (SelectOption n)
  show ?thesis
  proof (cases "scored st \<noteq> None \<or> \<not> currentQuestionIndex st < length qs
                \<or> \<not> n < length (options (qs ! currentQuestionIndex st))")
    case True
    with assms SelectOption show ?thesis by (auto simp: step_def Let_def)
  next
    case False
    then have "qid (qs ! currentQuestionIndex st) \<in> qid ` set qs" by simp
    with assms False SelectOption show ?thesis
      by (simp add: step_def Let_def handleAnswerSelect_def answers_inv_def set_answer_keys
            set_answer_distinct)
  qed
next
  case ClickNext
  with assms show ?thesis
    by (auto simp: step_def Let_def handleNext_def answers_inv_def)
next
  case ClickPrevious
  with assms show ?thesis
    by (auto simp: step_def Let_def handlePrevious_def answers_inv_def)
next
  case ClickSubmit
  with assms show ?thesis
    by (auto simp: step_def Let_def handleSubmit_def answers_inv_def)
next
  case (Response r)
  with assms show ?thesis
    by (auto simp: step_def handleResponse_def answers_inv_def split: option.splits)
next
  case ClickRetake
  with assms show ?thesis
    by (auto simp: step_def handleRetake_def answers_inv_def)
next
  case (Rerender i q)
  with assms show ?thesis
    by (auto simp: step_def Let_def)
qed

lemma all_answered_complete:
  assumes "answers_inv qs st" "allAnswered qs st"
  shows "fst ` set (selected st) = qid ` set qs"
proof -
  from assms have d: "distinct (map fst (selected st))"
    and sub: "fst ` set (selected st) \<subseteq> qid ` set qs"
    and len: "length (selected st) = length qs"
    by (simp_all add: answers_inv_def allAnswered_def answeredCount_def object_entries_length)
  have "card (fst ` set (selected st)) = length (selected st)"
    using d distinct_card [of "map fst (selected st)"] by simp
  moreover have "card (qid ` set qs) \<le> length qs"
    using card_length [of "map qid qs"] by simp
  ultimately have "card (qid ` set qs) \<le> card (fst ` set (selected st))"
    using len by simp
  with sub show ?thesis
    by (intro card_seteq) auto
qed

lemma run_step:
  assumes "\<And>i q. ev \<noteq> Rerender i q"
  shows "run quizId t qs st (ev # evs) =
     (let (st', sent) = step quizId t qs st ev;
          (st'', rest) = run quizId t qs st' evs
      in (st'', (case sent of None \<Rightarrow> rest | Some payload \<Rightarrow> payload # rest)))"
proof (cases ev)
  case (Rerender i q)
  with assms show ?thesis by blast
qed simp_all

lemma run_sent:
  assumes "answers_inv qs st" "fixed_props evs" "payload \<in> set (snd (run quizId t qs st evs))"
  shows "length (submitted_answers payload) = length qs \<and>
         fst ` set (submitted_answers payload) = qid ` set qs"
  using assms
proof (induction evs arbitrary: st)
  case Nil
  then show ?case by simp
next
  case (Cons ev evs)
  let ?st' = "fst (step quizId t qs st ev)"
  from Cons.prems(2) have ev: "\<And>i q. ev \<noteq> Rerender i q" and evs: "fixed_props evs"
    by (auto simp: fixed_props_def)
  from Cons.prems(1) have inv': "answers_inv qs ?st'" by (rule step_inv)
  from Cons.prems(3) consider
    (now) "snd (step quizId t qs st ev) = Some payload"
    | (later) "payload \<in> set (snd (run quizId t qs ?st' evs))"
    by (auto simp: run_step [OF ev] split_beta Let_def split: option.splits)
  then show ?case
  proof cases
    case now
    from step_sent(2,5) [OF now] all_answered_complete [OF Cons.prems(1)]
    show ?thesis
      by (simp add: allAnswered_def answeredCount_def object_entries_set)
  next
    case later
    from Cons.IH [OF inv' evs later] show ?thesis .
  qed
qed

lemma answers_inv_initial: "answers_inv qs initial_state"
  by (simp add: answers_inv_def initial_state_def)

text \<open>
  While the properties stay those of the first rendering, a submission is sent only when
  every question has an answer: the answers are for distinct identifiers of questions of the
  quiz, and they are as many as the questions.
\<close>

lemma fixed_props_complete:
  assumes "fixed_props evs" "sent \<in> set (snd (run quizId t qs initial_state evs))"
  shows "length (submitted_answers sent) = length qs"
    and "\<forall>q \<in> set qs. qid q \<in> fst ` set (submitted_answers sent)"
  using run_sent [OF answers_inv_initial assms] by auto

section \<open>Evaluating the example documents\<close>

lemma startsWith_simps:
  "startsWith s [] = True" "startsWith [] (p # ps) = False"
  "startsWith (x # xs) (p # ps) = (x = p \<and> startsWith xs ps)"
  by (auto simp: startsWith_def)

lemma js_literals:
  "js ''# '' = [35, 32]"
  "js ''### Question '' = [35, 35, 35, 32, 81, 117, 101, 115, 116, 105, 111, 110, 32]"
  "js ''**Answer:'' = [42, 42, 65, 110, 115, 119, 101, 114, 58]"
  "js ''**Explanation:**'' = [42, 42, 69, 120, 112, 108, 97, 110, 97, 116, 105, 111, 110, 58, 42, 42]"
  "js '':'' = [58]" "js ''**'' = [42, 42]" "js ''-'' = [45]" "js ''#'' = [35]" "js '' '' = [32]"
  "js ''q'' = [113]" "js ''.md'' = [46, 109, 100]"
  "js ''chapter-'' = [99, 104, 97, 112, 116, 101, 114, 45]"
  "js ''-quiz'' = [45, 113, 117, 105, 122]"
  "js ''## '' = [35, 35, 32]"
  "js '' Questions'' = [32, 81, 117, 101, 115, 116, 105, 111, 110, 115]"
  by (simp_all add: js_def)

lemmas regex_defs = match_question_def match_option_def match_option_bold_def
  match_option_plain_def match_answer_def match_answer_at_def match_explanation_def
  match_explanation_at_def match_key_def match_key_test_def match_key_head_def ws_then_text_def

lemmas string_defs = js_literals startsWith_simps trim_def isWhiteSpace_def
  isLineTerminator_def isDigit_def isAtoD_def questions_marker_def replace_decoration_def
  isDecoration_def parseInt_def

lemmas scan_defs = scan_line_def on_question_def on_option_def on_answer_def
  on_explanation_def on_answer_key_def scan_init_def push_current_def truthy_array_def
  make_id_def

lemma parse_questions_eval:
  "scan_lines ls scan_init = st \<Longrightarrow>
   parse_questions ls = match_answers (answers st) 0 (push_current st)"
  by (auto simp: parse_questions_def Let_def)

lemma parse_content_eval:
  assumes "lines_of content = ls"
    and "parse_questions ls = qs"
    and "qs \<noteq> []"
    and "title_loop ls [] = t"
    and "extract_description ls = d"
  shows "parse_content p content =
     (Some \<lparr>chapter_id = extractChapterId p,
            title = (if t \<noteq> [] then t else js ''Quiz''),
            description = (if d \<noteq> [] then d else js ''Test your knowledge!''),
            passing_percentage = 70, questions = qs\<rparr>,
      if length (invalidQuestions qs) > 0
      then [Warn_missing_answers (length (invalidQuestions qs)) p] else [])"
  using assms by (simp add: parse_content_def Let_def)

lemma parseQuizFile_world_of:
  "parseQuizFile (world_of p c) p =
     (fst (parse_content p c), \<lparr>files = files (world_of p c), console = snd (parse_content p c)\<rparr>)"
  by (simp add: parseQuizFile_def world_of_def split: prod.splits)

lemma quiz_path_id: "extractChapterId quiz_path = js ''quiz''"
  by (simp add: extractChapterId_def quiz_path_def js_def startsWith_simps Let_def)

lemma extractChapterId_chapter:
  assumes "find (\<lambda>p. startsWith p (js ''chapter-'')) (split (\<lambda>c. c = 0x2F \<or> c = 0x5C) filePath)
             = Some part"
  shows "extractChapterId filePath = part @ js ''-quiz''"
proof -
  from assms have "startsWith part (js ''chapter-'')"
    by (auto simp: find_Some_iff)
  then have "part \<noteq> []"
    by (auto simp: startsWith_def js_def)
  with assms show ?thesis
    by (simp add: extractChapterId_def Let_def)
qed

lemma doc_min_lines: "lines_of doc_min = [js ''### Question 1:T'']"
  by (simp add: lines_of_def doc_min_def js_def)

lemma doc_min_questions: "parse_questions [js ''### Question 1:T''] = [question_min]"
proof -
  have "scan_lines [js ''### Question 1:T''] scan_init =
      \<lparr>found = [], answers = Map.empty, currentQuestion = Some question_min,
       questionNumber = 1\<rparr>"
    by (simp add: js_def scan_defs regex_defs string_defs digits.simps Let_def question_min_def)
  from parse_questions_eval [OF this] show ?thesis
    by (simp add: push_current_def truthy_array_def question_min_def js_def)
qed

lemma doc_min_parse:
  "parse_content quiz_path doc_min = (Some quiz_min, [Warn_missing_answers 1 quiz_path])"
proof -
  have t: "title_loop [js ''### Question 1:T''] [] = []"
    by (simp add: js_def string_defs)
  have d: "extract_description [js ''### Question 1:T''] = []"
    by (simp add: js_def extract_description_def string_defs)
  show ?thesis
    using parse_content_eval [OF doc_min_lines doc_min_questions _ t d, of quiz_path]
    by (simp add: invalidQuestions_def quiz_min_def quiz_path_id question_min_def)
qed

lemma doc_min_file:
  "fst (parseQuizFile (world_of quiz_path doc_min) quiz_path) = Some quiz_min"
  by (simp add: parseQuizFile_world_of doc_min_parse)

lemma found_scan_line:
  "found (scan_line raw next st) = (if match_question (trim raw) then push_current st else found st)"
  by (simp add: scan_line_annotate annotate_frame on_question_def Let_def)

lemma empty_document_questions: "parse_questions (lines_of []) = []"
  by (simp add: lines_of_def parse_questions_def js_def scan_defs regex_defs string_defs Let_def)

lemma no_title: "\<forall>l \<in> set ls. \<not> startsWith l (js ''# '') \<Longrightarrow> extract_description ls = []"
  by (simp add: extract_description_def description_loop_outside kept_lines_def trim_def
        dropWhile_eq_Nil_conv [THEN iffD2])

lemma doc_both_lines:
  "lines_of doc_both =
     [js ''### Question 1:T'', js ''Q'', js ''**Answer: B)**'', js ''**Explanation:** e'',
      js ''1. **A** - z'']"
  by (simp add: lines_of_def doc_both_def js_def)

lemma doc_both_scan:
  "scan_lines [js ''### Question 1:T'', js ''Q'', js ''**Answer: B)**'',
               js ''**Explanation:** e'', js ''1. **A** - z''] scan_init =
     \<lparr>found = [], answers = [1 \<mapsto> (js ''A'', js ''z'')],
      currentQuestion = Some question_inline, questionNumber = 1\<rparr>"
  by (simp add: js_def scan_defs regex_defs string_defs digits.simps Let_def question_inline_def)

lemma doc_both_inline: "push_current (scan_lines (lines_of doc_both) scan_init) = [question_inline]"
  unfolding doc_both_lines doc_both_scan
  by (simp add: push_current_def truthy_array_def question_inline_def js_def)

lemma doc_both_questions: "parse_questions (lines_of doc_both) = [question_both]"
  using parse_questions_eval [OF doc_both_scan]
  by (simp add: doc_both_lines push_current_def truthy_array_def question_inline_def
        question_both_def js_def)

lemma doc_both_file:
  "fst (parseQuizFile (world_of quiz_path doc_both) quiz_path) = Some quiz_both"
proof -
  have h: "\<forall>l \<in> set (lines_of doc_both). \<not> startsWith l (js ''# '')"
    by (simp add: doc_both_lines js_def startsWith_simps)
  have q: "[question_both] \<noteq> []" by simp
  show ?thesis
    using parse_content_eval [OF refl doc_both_questions q title_loop_no_heading [OF h]
        no_title [OF h], of quiz_path]
    by (simp add: parseQuizFile_world_of quiz_both_def quiz_path_id)
qed

lemma doc_mismatch_lines:
  "lines_of doc_mismatch = [js ''### Question 1:T'', js ''Q'', js ''A) x'', js ''**Answer: B)**'']"
  by (simp add: lines_of_def doc_mismatch_def js_def)

lemma doc_mismatch_scan:
  "scan_lines [js ''### Question 1:T'', js ''Q'', js ''A) x'', js ''**Answer: B)**''] scan_init =
     \<lparr>found = [], answers = Map.empty, currentQuestion = Some question_mismatch,
      questionNumber = 1\<rparr>"
  by (simp add: js_def scan_defs regex_defs string_defs digits.simps Let_def question_mismatch_def)

lemma doc_mismatch_questions: "parse_questions (lines_of doc_mismatch) = [question_mismatch]"
  using parse_questions_eval [OF doc_mismatch_scan]
  by (simp add: doc_mismatch_lines push_current_def truthy_array_def question_mismatch_def js_def)

lemma doc_mismatch_parse:
  "parse_content quiz_path doc_mismatch = (Some quiz_mismatch, [])"
proof -
  have h: "\<forall>l \<in> set (lines_of doc_mismatch). \<not> startsWith l (js ''# '')"
    by (simp add: doc_mismatch_lines js_def startsWith_simps)
  have q: "[question_mismatch] \<noteq> []" by simp
  show ?thesis
    using parse_content_eval [OF refl doc_mismatch_questions q title_loop_no_heading [OF h]
        no_title [OF h], of quiz_path]
    by (simp add: quiz_mismatch_def quiz_path_id invalidQuestions_def question_mismatch_def js_def)
qed

lemma doc_skip_lines:
  "lines_of doc_skip =
     [js ''### Question 1:a'', js ''x'', js ''### Question 7:'', [], js ''### Question 2:b'']"
  by (simp add: lines_of_def doc_skip_def js_def)

lemma doc_skip_scan:
  "scan_lines [js ''### Question 1:a'', js ''x'', js ''### Question 7:'', [],
               js ''### Question 2:b''] scan_init =
     \<lparr>found = [\<lparr>qid = js ''q1'', question = js ''x'', options = [], correct_answer = [],
                 explanation = []\<rparr>],
      answers = Map.empty,
      currentQuestion = Some \<lparr>qid = js ''q3'', question = js ''b'', options = [],
                               correct_answer = [], explanation = []\<rparr>,
      questionNumber = 3\<rparr>"
  by (simp add: js_def scan_defs regex_defs string_defs digits.simps Let_def)

lemma doc_skip_questions: "parse_questions (lines_of doc_skip) = questions quiz_skip"
  using parse_questions_eval [OF doc_skip_scan]
  by (simp add: doc_skip_lines push_current_def truthy_array_def quiz_skip_def js_def)

lemma doc_skip_file:
  "fst (parseQuizFile (world_of quiz_path doc_skip) quiz_path) = Some quiz_skip"
proof -
  have h: "\<forall>l \<in> set (lines_of doc_skip). \<not> startsWith l (js ''# '')"
    by (simp add: doc_skip_lines js_def startsWith_simps)
  have q: "questions quiz_skip \<noteq> []" by (simp add: quiz_skip_def)
  show ?thesis
    using parse_content_eval [OF refl doc_skip_questions q title_loop_no_heading [OF h]
        no_title [OF h], of quiz_path]
    by (simp add: parseQuizFile_world_of quiz_skip_def quiz_path_id)
qed

lemma doc_described_lines:
  "lines_of doc_described =
     [js ''# T'', js ''ab'', js ''- item'', js ''cd'', questions_marker, js ''### Question 1:T'']"
  by (simp add: lines_of_def doc_described_def js_def questions_marker_def)

lemma doc_described_scan:
  "scan_lines [js ''# T'', js ''ab'', js ''- item'', js ''cd'', questions_marker,
               js ''### Question 1:T''] scan_init =
     \<lparr>found = [], answers = Map.empty, currentQuestion = Some question_min,
      questionNumber = 1\<rparr>"
  by (simp add: js_def scan_defs regex_defs string_defs digits.simps Let_def question_min_def)

lemma doc_described_questions: "parse_questions (lines_of doc_described) = [question_min]"
  using parse_questions_eval [OF doc_described_scan]
  by (simp add: doc_described_lines push_current_def truthy_array_def question_min_def js_def)

lemma doc_described_title: "title_loop (lines_of doc_described) [] = js ''T''"
  by (simp add: doc_described_lines js_def string_defs)

lemma doc_described_description: "extract_description (lines_of doc_described) = js ''ab cd''"
  by (simp add: doc_described_lines js_def extract_description_def string_defs)

lemma doc_described_file:
  "fst (parseQuizFile (world_of quiz_path doc_described) quiz_path) = Some quiz_described"
proof -
  have q: "[question_min] \<noteq> []" by simp
  show ?thesis
    using parse_content_eval [OF refl doc_described_questions q doc_described_title
        doc_described_description, of quiz_path]
    by (simp add: parseQuizFile_world_of quiz_described_def quiz_path_id js_def)
qed

lemma doc_example_lines:
  "lines_of doc_example =
     [js ''# Chapter Quiz'', js ''### Question 1: Topic'', js ''**What is x?**'', js ''A) x'',
      js ''**B)** y'', js ''**Answer: B)**'']"
  by (simp add: lines_of_def doc_example_def js_def)

lemma doc_example_scan:
  "scan_lines [js ''# Chapter Quiz'', js ''### Question 1: Topic'', js ''**What is x?**'',
               js ''A) x'', js ''**B)** y'', js ''**Answer: B)**''] scan_init =
     \<lparr>found = [], answers = Map.empty,
      currentQuestion = Some (hd (questions quiz_example)), questionNumber = 1\<rparr>"
  by (simp add: js_def scan_defs regex_defs string_defs digits.simps Let_def quiz_example_def)

lemma doc_example_questions: "parse_questions (lines_of doc_example) = questions quiz_example"
  using parse_questions_eval [OF doc_example_scan]
  by (simp add: doc_example_lines push_current_def truthy_array_def quiz_example_def js_def)

lemma doc_example_title: "title_loop (lines_of doc_example) [] = js ''Chapter Quiz''"
  by (simp add: doc_example_lines js_def string_defs)

lemma doc_example_description: "extract_description (lines_of doc_example) = js ''A) x''"
  by (simp add: doc_example_lines js_def extract_description_def string_defs)

lemma doc_example_parse: "parse_content quiz_path doc_example = (Some quiz_example, [])"
proof -
  have q: "questions quiz_example \<noteq> []" by (simp add: quiz_example_def)
  show ?thesis
    using parse_content_eval [OF refl doc_example_questions q doc_example_title
        doc_example_description, of quiz_path]
    by (simp add: quiz_example_def quiz_path_id invalidQuestions_def js_def)
qed

lemma doc_note_lines:
  "lines_of doc_note =
     [js ''# T'', js ''**Note:** a'', js ''* b'', questions_marker, js ''### Question 1:T'']"
  by (simp add: lines_of_def doc_note_def js_def questions_marker_def)

lemma doc_note_scan:
  "scan_lines [js ''# T'', js ''**Note:** a'', js ''* b'', questions_marker,
               js ''### Question 1:T''] scan_init =
     \<lparr>found = [], answers = Map.empty, currentQuestion = Some question_min,
      questionNumber = 1\<rparr>"
  by (simp add: js_def scan_defs regex_defs string_defs digits.simps Let_def question_min_def)

lemma doc_note_questions: "parse_questions (lines_of doc_note) = [question_min]"
  using parse_questions_eval [OF doc_note_scan]
  by (simp add: doc_note_lines push_current_def truthy_array_def question_min_def js_def)

lemma doc_note_title: "title_loop (lines_of doc_note) [] = js ''T''"
  by (simp add: doc_note_lines js_def string_defs)

lemma doc_note_description: "extract_description (lines_of doc_note) = js ''* b''"
  by (simp add: doc_note_lines js_def extract_description_def string_defs)

lemma doc_note_file:
  "fst (parseQuizFile (world_of quiz_path doc_note) quiz_path) = Some quiz_note"
proof -
  have q: "[question_min] \<noteq> []" by simp
  show ?thesis
    using parse_content_eval [OF refl doc_note_questions q doc_note_title
        doc_note_description, of quiz_path]
    by (simp add: parseQuizFile_world_of quiz_note_def quiz_path_id js_def)
qed

lemma doc_note_claim_description: "claim_description (lines_of doc_note) = js ''**Note:** a''"
  by (simp add: doc_note_lines js_def claim_description_def claim_plain_line_def
        emphasis_only_def list_item_def heading_line_def questions_section_start_def
        match_question_def string_defs Let_def)

lemma make_id_inject: "make_id m = make_id n \<Longrightarrow> m = n"
  by (simp add: make_id_def digits_inject)

lemma increasing_ids_distinct: "sorted_wrt (<) (ns :: nat list) \<Longrightarrow> distinct (map make_id ns)"
proof -
  assume "sorted_wrt (<) ns"
  then have "distinct ns" by (induction ns) auto
  moreover have "inj_on make_id (set ns)" by (auto intro: inj_onI dest: make_id_inject)
  ultimately show ?thesis by (simp add: distinct_map)
qed

lemma letter_key_not_Nil: "letter_key k \<Longrightarrow> k \<noteq> []"
  by (auto simp: letter_key_def)

lemma parseQuizFile_read:
  "files w p = Some content \<Longrightarrow>
   parseQuizFile w p =
     (fst (parse_content p content), w\<lparr>console := console w @ snd (parse_content p content)\<rparr>)"
  by (simp add: parseQuizFile_def split: prod.splits)

lemma extract_description_length: "length (extract_description ls) \<le> 200"
  by (simp add: extract_description_def)

lemma found_scan_line_filter:
  "found (scan_line raw next st) =
      found st @ filter (\<lambda>q. question q \<noteq> [])
        (if match_question (trim raw)
         then (case currentQuestion st of None \<Rightarrow> [] | Some q \<Rightarrow> [q]) else [])"
  apply (simp only: found_scan_line)
  apply (cases "match_question (trim raw)")
   apply (simp only: if_True)
   apply (cases "currentQuestion st")
    apply (simp only: push_current_cases option.case)
    apply simp
   apply (simp only: push_current_cases option.case)
   apply simp
  apply simp
  done

lemma push_current_start:
  "push_current st =
     found st @ filter (\<lambda>q. question q \<noteq> [])
       (case currentQuestion st of None \<Rightarrow> [] | Some q \<Rightarrow> [q])"
  apply (cases "currentQuestion st")
   apply (simp only: push_current_cases option.case)
   apply simp
  apply (simp only: push_current_cases option.case)
  apply simp
  done

lemma push_current_accumulated:
  "push_current (scan_lines ls st) =
     found st @ filter (\<lambda>q. question q \<noteq> []) (accumulated ls st)"
proof (induction ls arbitrary: st)
  case Nil
  show ?case by (simp only: scan_lines.simps accumulated.simps push_current_start)
next
  case (Cons raw rest)
  let ?next = "case rest of [] \<Rightarrow> None | l # _ \<Rightarrow> Some l"
  let ?st' = "scan_line raw ?next st"
  have "push_current (scan_lines (raw # rest) st) = push_current (scan_lines rest ?st')"
    by (simp only: scan_lines.simps)
  also have "\<dots> = found ?st' @ filter (\<lambda>q. question q \<noteq> []) (accumulated rest ?st')"
    by (rule Cons.IH)
  finally show ?case
    by (simp only: found_scan_line_filter [of raw ?next st] accumulated.simps filter_append
          append_assoc)
qed

lemma doc_skip_accumulated:
  "accumulated (lines_of doc_skip) scan_init = [question_skip_1, question_skip_2, question_skip_3]"
  unfolding doc_skip_lines
  by (simp add: js_def scan_defs regex_defs string_defs digits.simps Let_def
        question_skip_1_def question_skip_2_def question_skip_3_def)

section \<open>The claims\<close>

text \<open>
  Claim C1, as the code has it. After the scan, the entry of the old answer key at the
  position of a question in the output list (counted from 1), when there is one, replaces
  both the answer and the explanation of that question, whatever the inline annotations gave;
  a question without such an entry keeps what the scan gave it.
\<close>

theorem answer_key_replaces_inline:
  "i < length (push_current (scan_lines ls scan_init)) \<Longrightarrow>
   length (parse_questions ls) = length (push_current (scan_lines ls scan_init))
   \<and> parse_questions ls ! i =
       (case answers (scan_lines ls scan_init) (i + 1) of
          Some (a, e) \<Rightarrow>
            (push_current (scan_lines ls scan_init) ! i)\<lparr>correct_answer := a, explanation := e\<rparr>
        | None \<Rightarrow> push_current (scan_lines ls scan_init) ! i)"
  using match_answers_nth [of i "push_current (scan_lines ls scan_init)"
      "answers (scan_lines ls scan_init)" 0]
  by (simp add: parse_questions_def Let_def match_answers_length)

theorem answer_key_replaces_inline_witness:
  "push_current (scan_lines (lines_of doc_both) scan_init) = [question_inline]
   \<and> answers (scan_lines (lines_of doc_both) scan_init) 1 = Some (js ''A'', js ''z'')
   \<and> parse_questions (lines_of doc_both) ! 0 =
       question_inline\<lparr>correct_answer := js ''A'', explanation := js ''z''\<rparr>"
proof -
  have a: "answers (scan_lines (lines_of doc_both) scan_init) (0 + 1) = Some (js ''A'', js ''z'')"
    unfolding doc_both_lines doc_both_scan by simp
  have l: "0 < length (push_current (scan_lines (lines_of doc_both) scan_init))"
    by (simp add: doc_both_inline)
  from answer_key_replaces_inline [OF l] a doc_both_inline
  show ?thesis by simp
qed

text \<open>
  Claim C1 as stated fails: a question with the inline answer B and the inline explanation
  \<open>e\<close>, in a document whose old answer key has \<open>1. **A** - z\<close>, is returned with the
  answer A and the explanation \<open>z\<close>.
\<close>

theorem inline_answer_overwritten:
  "push_current (scan_lines (lines_of doc_both) scan_init) = [question_inline]
   \<and> correct_answer question_inline = js ''B'' \<and> explanation question_inline = js ''e''
   \<and> fst (parseQuizFile (world_of quiz_path doc_both) quiz_path) = Some quiz_both
   \<and> questions quiz_both = [question_both]
   \<and> correct_answer question_both = js ''A'' \<and> explanation question_both = js ''z''
   \<and> correct_answer question_both \<noteq> correct_answer question_inline
   \<and> explanation question_both \<noteq> explanation question_inline"
  by (simp add: doc_both_inline doc_both_file quiz_both_def question_both_def
        question_inline_def js_def)

text \<open>
  Claim C2, as the code has it. A question that is accumulating is finalized, at the next
  question heading and after the last line, exactly when its text is not empty: the options
  are an array, which is truthy also when it is empty, so the number of options plays no role.
  The output list of the scan is the list of all questions that were accumulating at a
  question heading or at the end of the scan, in order, without those whose text is empty;
  the questions the parser returns are these, with their text and options as they were.
\<close>

theorem finalized_iff_text:
  "push_current st =
     (case currentQuestion st of
        None \<Rightarrow> found st
      | Some q \<Rightarrow> if question q \<noteq> [] then found st @ [q] else found st)
   \<and> found (scan_line raw next st) =
       (if match_question (trim raw) then push_current st else found st)
   \<and> push_current (scan_lines ls scan_init) =
       filter (\<lambda>q. question q \<noteq> []) (accumulated ls scan_init)
   \<and> parse_questions ls =
       match_answers (answers (scan_lines ls scan_init)) 0
         (filter (\<lambda>q. question q \<noteq> []) (accumulated ls scan_init))
   \<and> map question (parse_questions ls) =
       map question (filter (\<lambda>q. question q \<noteq> []) (accumulated ls scan_init))
   \<and> map options (parse_questions ls) =
       map options (filter (\<lambda>q. question q \<noteq> []) (accumulated ls scan_init))"
proof -
  have a: "push_current (scan_lines ls scan_init) =
             filter (\<lambda>q. question q \<noteq> []) (accumulated ls scan_init)"
    using push_current_accumulated [of ls scan_init] by (simp add: scan_init_def)
  have p: "parse_questions ls =
             match_answers (answers (scan_lines ls scan_init)) 0
               (push_current (scan_lines ls scan_init))"
    by (simp add: parse_questions_def Let_def)
  have q: "map question (parse_questions ls) = map question (push_current (scan_lines ls scan_init))"
    and o: "map options (parse_questions ls) = map options (push_current (scan_lines ls scan_init))"
    by (simp_all add: p match_answers_question match_answers_options)
  show ?thesis
  proof (intro conjI)
    show "push_current st =
       (case currentQuestion st of
          None \<Rightarrow> found st
        | Some q \<Rightarrow> if question q \<noteq> [] then found st @ [q] else found st)"
      by (rule push_current_cases)
    show "found (scan_line raw next st) =
       (if match_question (trim raw) then push_current st else found st)"
      by (rule found_scan_line)
    show "push_current (scan_lines ls scan_init) =
       filter (\<lambda>q. question q \<noteq> []) (accumulated ls scan_init)"
      by (rule a)
    show "parse_questions ls =
       match_answers (answers (scan_lines ls scan_init)) 0
         (filter (\<lambda>q. question q \<noteq> []) (accumulated ls scan_init))"
      using p by (simp only: a)
    show "map question (parse_questions ls) =
       map question (filter (\<lambda>q. question q \<noteq> []) (accumulated ls scan_init))"
      using q by (simp only: a)
    show "map options (parse_questions ls) =
       map options (filter (\<lambda>q. question q \<noteq> []) (accumulated ls scan_init))"
      using o by (simp only: a)
  qed
qed

theorem finalized_iff_text_witness:
  "accumulated (lines_of doc_skip) scan_init =
     [question_skip_1, question_skip_2, question_skip_3]
   \<and> question question_skip_1 \<noteq> [] \<and> question question_skip_2 = []
   \<and> question question_skip_3 \<noteq> []
   \<and> options question_skip_1 = [] \<and> options question_skip_3 = []
   \<and> push_current (scan_lines (lines_of doc_skip) scan_init) =
       [question_skip_1, question_skip_3]
   \<and> parse_questions (lines_of doc_skip) = [question_skip_1, question_skip_3]"
proof -
  have t: "question question_skip_1 \<noteq> []" "question question_skip_2 = []"
    "question question_skip_3 \<noteq> []" "options question_skip_1 = []"
    "options question_skip_3 = []"
    by (simp_all add: question_skip_1_def question_skip_2_def question_skip_3_def js_def)
  have q: "parse_questions (lines_of doc_skip) = [question_skip_1, question_skip_3]"
    by (simp add: doc_skip_questions quiz_skip_def question_skip_1_def question_skip_3_def)
  from finalized_iff_text [where ls = "lines_of doc_skip", THEN conjunct2, THEN conjunct2,
      THEN conjunct1]
  have "push_current (scan_lines (lines_of doc_skip) scan_init) =
          [question_skip_1, question_skip_3]"
    by (simp add: doc_skip_accumulated t)
  with t q show ?thesis
    by (simp add: doc_skip_accumulated)
qed

text \<open>
  Claim C2 as stated fails: the document that is one question heading yields a quiz whose
  only question has no option.
\<close>

theorem question_without_options_kept:
  "fst (parseQuizFile (world_of quiz_path doc_min) quiz_path) = Some quiz_min
   \<and> questions quiz_min = [question_min] \<and> options question_min = []"
  by (simp add: doc_min_file quiz_min_def question_min_def)

text \<open>
  Claim C3. A document from which no question is extracted yields no quiz (the parser
  returns \<open>null\<close>), and every quiz the parser returns has at least one question.
\<close>

theorem no_questions_no_quiz:
  "(files w p = Some content \<and> parse_questions (lines_of content) = []
      \<longrightarrow> fst (parseQuizFile w p) = None)
   \<and> (fst (parseQuizFile w p) = Some quiz \<longrightarrow> questions quiz \<noteq> [])"
proof (intro conjI impI)
  assume "files w p = Some content \<and> parse_questions (lines_of content) = []"
  then show "fst (parseQuizFile w p) = None"
    by (simp add: parseQuizFile_fst parse_content_None)
next
  assume "fst (parseQuizFile w p) = Some quiz"
  then obtain c where "fst (parse_content p c) = Some quiz"
    using parseQuizFile_Some by blast
  then show "questions quiz \<noteq> []" by (rule parse_content_Some(2))
qed

theorem no_questions_no_quiz_witness:
  "fst (parseQuizFile (world_of quiz_path []) quiz_path) = None
   \<and> fst (parseQuizFile (world_of quiz_path doc_min) quiz_path) = Some quiz_min
   \<and> questions quiz_min \<noteq> []"
proof -
  have "files (world_of quiz_path []) quiz_path = Some []"
    by (simp add: world_of_def)
  with no_questions_no_quiz [where w = "world_of quiz_path []" and p = quiz_path
      and content = "[]"] empty_document_questions
  have "fst (parseQuizFile (world_of quiz_path []) quiz_path) = None"
    by simp
  moreover from no_questions_no_quiz [where w = "world_of quiz_path doc_min"
      and p = quiz_path and quiz = quiz_min] doc_min_file
  have "questions quiz_min \<noteq> []"
    by simp
  ultimately show ?thesis
    using doc_min_file by simp
qed

text \<open>
  Claim C4, as the code has it. In every quiz the parser returns, the questions counted in
  the warning are those with an empty answer or no option: a warning with their number is
  printed when there is one, none otherwise. No question is discarded on that ground: the
  list returned is the list of all questions extracted. Each question counted has an answer
  that is the key of none of its options.
\<close>

theorem missing_answers_flagged:
  "files w p = Some content \<Longrightarrow> parseQuizFile w p = (Some quiz, w') \<Longrightarrow>
   questions quiz = parse_questions (lines_of content)
   \<and> console w' = console w @
        (if invalidQuestions (questions quiz) = [] then []
         else [Warn_missing_answers (length (invalidQuestions (questions quiz))) p])
   \<and> (\<forall>q \<in> set (questions quiz).
         q \<in> set (invalidQuestions (questions quiz)) \<longleftrightarrow> correct_answer q = [] \<or> options q = [])
   \<and> (\<forall>q \<in> set (invalidQuestions (questions quiz)). correct_answer q \<notin> key ` set (options q))"
proof -
  assume f: "files w p = Some content" and r: "parseQuizFile w p = (Some quiz, w')"
  from r f have q: "fst (parse_content p content) = Some quiz"
    and w': "w' = w\<lparr>console := console w @ snd (parse_content p content)\<rparr>"
    by (simp_all add: parseQuizFile_read)
  from q have qs: "questions quiz = parse_questions (lines_of content)"
    by (rule parse_content_Some(1))
  from q have out: "snd (parse_content p content) =
      (if invalidQuestions (questions quiz) = [] then []
       else [Warn_missing_answers (length (invalidQuestions (questions quiz))) p])"
    by (auto simp: parse_content_def Let_def split: if_splits)
  have keys: "\<forall>q \<in> set (questions quiz). \<forall>opt \<in> set (options q). key opt \<noteq> []"
    using parse_questions_props(1) [of "lines_of content"] qs
    by (auto dest: letter_key_not_Nil)
  have "\<forall>q \<in> set (invalidQuestions (questions quiz)). correct_answer q \<notin> key ` set (options q)"
  proof
    fix q assume "q \<in> set (invalidQuestions (questions quiz))"
    then have m: "q \<in> set (questions quiz)" and c: "correct_answer q = [] \<or> options q = []"
      by (simp_all add: invalidQuestions_def)
    show "correct_answer q \<notin> key ` set (options q)"
    proof (cases "options q = []")
      case True
      then show ?thesis by simp
    next
      case False
      with c have "correct_answer q = []" by simp
      with keys m show ?thesis by force
    qed
  qed
  with qs out w' show ?thesis
    by (simp add: invalidQuestions_def)
qed

theorem missing_answers_flagged_witness:
  "parseQuizFile (world_of quiz_path doc_min) quiz_path =
     (Some quiz_min, \<lparr>files = files (world_of quiz_path doc_min),
                      console = [Warn_missing_answers 1 quiz_path]\<rparr>)
   \<and> questions quiz_min = parse_questions (lines_of doc_min)
   \<and> invalidQuestions (questions quiz_min) = [question_min]
   \<and> correct_answer question_min \<notin> key ` set (options question_min)"
proof -
  have f: "files (world_of quiz_path doc_min) quiz_path = Some doc_min"
    by (simp add: world_of_def)
  have r: "parseQuizFile (world_of quiz_path doc_min) quiz_path =
     (Some quiz_min, \<lparr>files = files (world_of quiz_path doc_min),
                      console = [Warn_missing_answers 1 quiz_path]\<rparr>)"
    by (simp add: parseQuizFile_world_of doc_min_parse)
  have i: "invalidQuestions (questions quiz_min) = [question_min]"
    by (simp add: invalidQuestions_def quiz_min_def question_min_def)
  from missing_answers_flagged [OF f r] i r
  show ?thesis by simp
qed

text \<open>
  Claim C4 as stated fails: a question with the only option A and the answer B is returned
  and no warning is printed, its answer is not empty and it has an option.
\<close>

theorem answer_mismatch_not_flagged:
  "fst (parseQuizFile (world_of quiz_path doc_mismatch) quiz_path) = Some quiz_mismatch
   \<and> console (snd (parseQuizFile (world_of quiz_path doc_mismatch) quiz_path)) = []
   \<and> questions quiz_mismatch = [question_mismatch]
   \<and> correct_answer question_mismatch = js ''B''
   \<and> map key (options question_mismatch) = [js ''A'']
   \<and> correct_answer question_mismatch \<notin> set (map key (options question_mismatch))
   \<and> invalidQuestions (questions quiz_mismatch) = []"
  by (simp add: parseQuizFile_world_of doc_mismatch_parse quiz_mismatch_def
        question_mismatch_def invalidQuestions_def js_def)

text \<open>
  Claim C6, at a path the code can receive. No segment of \<open>docs/intro.mdx-quiz.md\<close>
  begins with \<open>chapter-\<close>, and the base name without its extension is
  \<open>intro.mdx-quiz\<close>; the code removes the first \<open>.md\<close> of the base name instead.
\<close>

theorem chapter_id_first_md_removed:
  "extractChapterId (js ''docs/intro.mdx-quiz.md'') = js ''introx-quiz.md''"
  by (simp add: extractChapterId_def js_def startsWith_simps Let_def)

text \<open>
  Claim C7, as the code has it. The description of every quiz the parser returns has at most
  200 code units. It is built from the lines after the first line that starts with \<open>'# '\<close>
  and before the first line that contains \<open>## \<close>, the memo sign and \<open> Questions\<close>: those
  that are not blank and start with neither \<open>**\<close>, \<open>-\<close> nor \<open>#\<close>, trimmed, joined with
  single spaces and cut at 200 code units (\<open>kept_description\<close>); when that text is empty the
  description is \<open>Test your knowledge!\<close>.
\<close>

theorem description_at_most_200:
  "files w p = Some content \<Longrightarrow> fst (parseQuizFile w p) = Some quiz \<Longrightarrow>
   length (description quiz) \<le> 200
   \<and> description quiz =
       (if kept_description (lines_of content) = [] then js ''Test your knowledge!''
        else kept_description (lines_of content))"
proof -
  assume "files w p = Some content" "fst (parseQuizFile w p) = Some quiz"
  then have q: "fst (parse_content p content) = Some quiz"
    by (simp add: parseQuizFile_fst)
  have "length (js ''Test your knowledge!'') \<le> 200"
    by (simp add: js_def)
  with parse_content_Some(6) [OF q] extract_description_length [of "lines_of content"]
  show ?thesis
    by (simp add: extract_description_kept)
qed

theorem description_at_most_200_witness:
  "fst (parseQuizFile (world_of quiz_path doc_described) quiz_path) = Some quiz_described
   \<and> kept_description (lines_of doc_described) = js ''ab cd''
   \<and> description quiz_described = js ''ab cd''
   \<and> length (description quiz_described) \<le> 200"
proof -
  have f: "files (world_of quiz_path doc_described) quiz_path = Some doc_described"
    by (simp add: world_of_def)
  have s: "kept_description (lines_of doc_described) = js ''ab cd''"
    using doc_described_description by (simp add: extract_description_kept)
  have n: "js ''ab cd'' \<noteq> []" by (simp add: js_def)
  from description_at_most_200 [OF f doc_described_file] s n doc_described_file
  show ?thesis by (simp add: js_def)
qed

text \<open>
  Claim C7 as stated fails. In a document whose description part is the line
  \<open>**Note:** a\<close> and the list item \<open>* b\<close>, the claim excludes the list item and keeps the
  line of text, which is not emphasis only; the parser returns the list item and drops the
  other line.
\<close>

theorem description_keeps_list_item:
  "fst (parseQuizFile (world_of quiz_path doc_note) quiz_path) = Some quiz_note
   \<and> description quiz_note = js ''* b''
   \<and> claim_description (lines_of doc_note) = js ''**Note:** a''
   \<and> description quiz_note \<noteq> claim_description (lines_of doc_note)"
  by (simp add: doc_note_file doc_note_claim_description quiz_note_def js_def)

text \<open>
  Claim C8, at a sequence of events the page can produce. The component is mounted with a
  quiz whose questions are \<open>q1\<close> and \<open>q2\<close>, and the user selects an option for both. The
  answer of an earlier load then arrives, and the page renders the component again with quiz
  8, whose questions are \<open>q1\<close> and \<open>q3\<close> (the questions \<open>parseQuizFile\<close> returns for
  \<open>doc_skip\<close>). The two answers kept are as many as the questions, so the submit button is
  enabled, and the submission sent for quiz 8 has no answer for \<open>q3\<close>.
\<close>

theorem stale_answers_submitted:
  "snd (run 7 [] [question_mismatch, question_second] initial_state
          [SelectOption 0, ClickNext, SelectOption 0, Rerender 8 (questions quiz_skip),
           ClickSubmit])
     = [\<lparr>quiz_id = 8, started_at = [],
         submitted_answers = [(js ''q1'', js ''A''), (js ''q2'', js ''A'')]\<rparr>]
   \<and> map qid (questions quiz_skip) = [js ''q1'', js ''q3'']
   \<and> js ''q3'' \<notin> set (map fst [(js ''q1'', js ''A''), (js ''q2'', js ''A'')])"
  by (simp add: step_def initial_state_def allAnswered_def answeredCount_def
        handleAnswerSelect_def handleSubmit_def handleNext_def object_entries_def
        is_array_index_def isDigit_def question_mismatch_def question_second_def
        quiz_skip_def question_skip_1_def question_skip_3_def js_def Let_def)

text \<open>
  Claim C9. In every quiz the parser returns the identifiers of the questions are pairwise
  distinct: they are \<open>q\<close> followed by the numbers of a strictly increasing list, each the
  count of the question headings met so far, so numbers can be skipped but never repeated.
\<close>

theorem question_ids_increasing:
  "files w p = Some content \<Longrightarrow> fst (parseQuizFile w p) = Some quiz \<Longrightarrow>
   distinct (map qid (questions quiz))
   \<and> (\<exists>ns. map qid (questions quiz) = map make_id ns \<and> sorted_wrt (<) ns
         \<and> (\<forall>n \<in> set ns. 0 < n
               \<and> n \<le> length (filter (\<lambda>l. match_question (trim l)) (lines_of content))))"
proof -
  assume "files w p = Some content" "fst (parseQuizFile w p) = Some quiz"
  then have "fst (parse_content p content) = Some quiz"
    by (simp add: parseQuizFile_fst)
  then have qs: "questions quiz = parse_questions (lines_of content)"
    by (rule parse_content_Some(1))
  from parse_questions_props(2) [of "lines_of content"]
  obtain ns where ns: "map qid (questions quiz) = map make_id ns" "sorted_wrt (<) ns"
    "\<forall>n \<in> set ns. 0 < n \<and> n \<le> length (filter (\<lambda>l. match_question (trim l)) (lines_of content))"
    unfolding qs by blast
  from ns(1,2) have "distinct (map qid (questions quiz))"
    by (simp add: increasing_ids_distinct)
  with ns show ?thesis by blast
qed

theorem question_ids_increasing_witness:
  "fst (parseQuizFile (world_of quiz_path doc_skip) quiz_path) = Some quiz_skip
   \<and> map qid (questions quiz_skip) = [js ''q1'', js ''q3'']
   \<and> distinct (map qid (questions quiz_skip))"
proof -
  have f: "files (world_of quiz_path doc_skip) quiz_path = Some doc_skip"
    by (simp add: world_of_def)
  from question_ids_increasing [OF f doc_skip_file] doc_skip_file
  show ?thesis by (simp add: quiz_skip_def)
qed

text \<open>
  Claim C10. Every quiz the parser returns has a title and a description that are not
  empty: without a line that starts with \<open>'# '\<close> the title is \<open>Quiz\<close>, and without text
  for the description the description is \<open>Test your knowledge!\<close>.
\<close>

theorem title_and_description_nonempty:
  "files w p = Some content \<Longrightarrow> fst (parseQuizFile w p) = Some quiz \<Longrightarrow>
   title quiz \<noteq> [] \<and> description quiz \<noteq> []
   \<and> ((\<forall>l \<in> set (lines_of content). \<not> startsWith l (js ''# '')) \<longrightarrow> title quiz = js ''Quiz'')
   \<and> (extract_description (lines_of content) = []
        \<longrightarrow> description quiz = js ''Test your knowledge!'')"
proof -
  assume "files w p = Some content" "fst (parseQuizFile w p) = Some quiz"
  then have q: "fst (parse_content p content) = Some quiz"
    by (simp add: parseQuizFile_fst)
  have "js ''Quiz'' \<noteq> []" "js ''Test your knowledge!'' \<noteq> []"
    by (simp_all add: js_def)
  then show ?thesis
    using parse_content_Some(5,6) [OF q] title_loop_no_heading [of "lines_of content" "[]"]
    by (auto split: if_splits)
qed

theorem title_and_description_nonempty_witness:
  "fst (parseQuizFile (world_of quiz_path doc_min) quiz_path) = Some quiz_min
   \<and> title quiz_min = js ''Quiz'' \<and> description quiz_min = js ''Test your knowledge!''
   \<and> title quiz_min \<noteq> [] \<and> description quiz_min \<noteq> []"
proof -
  have f: "files (world_of quiz_path doc_min) quiz_path = Some doc_min"
    by (simp add: world_of_def)
  have h: "\<forall>l \<in> set (lines_of doc_min). \<not> startsWith l (js ''# '')"
    by (simp add: doc_min_lines js_def startsWith_simps)
  have d: "extract_description (lines_of doc_min) = []"
    by (simp add: doc_min_lines js_def extract_description_def string_defs)
  from title_and_description_nonempty [OF f doc_min_file] h d doc_min_file
  show ?thesis by (simp add: js_def)
qed

end
